theory Spec2Isabelle
  imports Complex_Main "HOL-Library.Word"
begin

unbundle bit_operations_syntax

section \<open>Common data: bytes, errors, sample buffers\<close>

type_synonym byte = "8 word"

text \<open>
  Every \<^verbatim>\<open>throw\<close> of the source is a value: \<open>RangeError\<close> is what \<^verbatim>\<open>DataView\<close>
  and the typed-array constructors raise on an access outside the buffer,
  \<open>AssertFailed\<close> is the \<^verbatim>\<open>Error\<close> thrown by \<^verbatim>\<open>assert\<close>.
\<close>

datatype error = RangeError | AssertFailed

text \<open>
  Storing a number into an \<^verbatim>\<open>Int16Array\<close> truncates it towards zero and wraps it
  modulo \<open>2 ^ 16\<close> into the signed range.
\<close>

definition toInt16 :: "int \<Rightarrow> int" where
  "toInt16 v = (v + 32768) mod 65536 - 32768"

definition js_trunc :: "rat \<Rightarrow> int" where
  "js_trunc q = (if q < 0 then - \<lfloor>- q\<rfloor> else \<lfloor>q\<rfloor>)"

text \<open>\<^verbatim>\<open>clamp(n, l, h)\<close> of \<^verbatim>\<open>audioUtils\<close>.\<close>

definition clamp :: "'a::linorder \<Rightarrow> 'a \<Rightarrow> 'a \<Rightarrow> 'a" where
  "clamp n l h = (if n < l then l else if n > h then h else n)"

section \<open>Clipping ratio\<close>

text \<open>
  \<^verbatim>\<open>pcmGetClippingRatio(src)\<close>: the loop counts the samples at or beyond the
  signed 16-bit bounds, the result is the quotient of the two counts. The quotient of
  the source is a double; \<open>0 / n\<close> and \<open>n / n\<close> are exact there. On an empty buffer the
  source yields \<^verbatim>\<open>NaN\<close> (\<open>0 / 0\<close>), which the model does not represent.
\<close>

fun count_clipped :: "int list \<Rightarrow> nat \<Rightarrow> nat" where
  "count_clipped [] numClippedSamples = numClippedSamples"
| "count_clipped (sample # rest) numClippedSamples =
     count_clipped rest
       (if sample \<le> - 32768 \<or> sample \<ge> 32767 then numClippedSamples + 1
        else numClippedSamples)"

definition pcmGetClippingRatio :: "int list \<Rightarrow> real" where
  "pcmGetClippingRatio src = real (count_clipped src 0) / real (length src)"

section \<open>Overlay mixing\<close>

text \<open>
  \<^verbatim>\<open>pcmAudioMix(src, dst, dstOffset)\<close> of both parsers. The loop stops when
  \<^verbatim>\<open>dstOffset + n > dstSize\<close>; otherwise it reads \<^verbatim>\<open>dst[dstOffset + n]\<close>, adds the
  source sample (format B) or half of it (format A), clamps and stores at the same
  index. A typed array ignores a store outside its bounds, so the buffer is then left
  as it is. The model returns the buffer together with the list of the indices at
  which a store was issued, in order.
\<close>

definition mix_full :: "int \<Rightarrow> int \<Rightarrow> int" where
  "mix_full d s = toInt16 (clamp (d + s) (- 32768) 32767)"

definition mix_half :: "int \<Rightarrow> int \<Rightarrow> int" where
  "mix_half d s = toInt16 (js_trunc (clamp (of_int d + of_int s / 2) (- 32768) 32767))"

function pcmAudioMix_from ::
  "(int \<Rightarrow> int \<Rightarrow> int) \<Rightarrow> int list \<Rightarrow> int \<Rightarrow> nat \<Rightarrow> int list \<times> int list \<Rightarrow> int list \<times> int list"
where
  "pcmAudioMix_from f src dstOffset n (dst, stores) =
     (if n < length src then
        (if dstOffset + int n > int (length dst) then (dst, stores)
         else
           let idx = dstOffset + int n;
               dst' = (if 0 \<le> idx \<and> idx < int (length dst)
                       then dst[nat idx := f (dst ! nat idx) (src ! n)] else dst)
           in pcmAudioMix_from f src dstOffset (n + 1) (dst', stores @ [idx]))
      else (dst, stores))"
  by pat_completeness auto
termination
  by (relation "measure (\<lambda>(f, src, dstOffset, n, acc). length src - n)") auto

definition kwz_pcmAudioMix :: "int list \<Rightarrow> int list \<Rightarrow> int \<Rightarrow> int list \<times> int list" where
  "kwz_pcmAudioMix src dst dstOffset = pcmAudioMix_from mix_full src dstOffset 0 (dst, [])"

definition ppm_pcmAudioMix :: "int list \<Rightarrow> int list \<Rightarrow> int \<Rightarrow> int list \<times> int list" where
  "ppm_pcmAudioMix src dst dstOffset = pcmAudioMix_from mix_half src dstOffset 0 (dst, [])"

section \<open>Byte cursor\<close>

text \<open>
  \<^verbatim>\<open>DataStream\<close> (and the older \<^verbatim>\<open>fileReader\<close>, which has the same \<^verbatim>\<open>seek\<close> and
  typed reads under the name \<^verbatim>\<open>offset\<close>): the buffer and the pointer into it.
  The buffer is never written by the parsers.
\<close>

record DataStream =
  buffer :: "byte list"
  pointer :: int

definition byteLength :: "'a DataStream_scheme \<Rightarrow> int" where
  "byteLength ds = int (length (buffer ds))"

text \<open>
  \<^verbatim>\<open>seek(offset, whence)\<close> with an integer offset: \<open>2\<close> is \<^verbatim>\<open>End\<close>, \<open>1\<close> is
  \<^verbatim>\<open>Current\<close>, \<open>0\<close> and every other value (also a missing argument) take the
  \<^verbatim>\<open>default\<close> branch. This record has the pointer as an integer, which it is as long
  as the offsets passed are integers; the cursor with any pointer follows below.
\<close>

definition seek :: "int \<Rightarrow> int \<Rightarrow> 'a DataStream_scheme \<Rightarrow> 'a DataStream_scheme" where
  "seek offset whence ds =
     (if whence = 2 then ds\<lparr>pointer := byteLength ds + offset\<rparr>
      else if whence = 1 then ds\<lparr>pointer := pointer ds + offset\<rparr>
      else ds\<lparr>pointer := offset\<rparr>)"

text \<open>
  The accessors of \<^verbatim>\<open>DataView\<close> raise \<^verbatim>\<open>RangeError\<close> when the index is negative or
  the value would reach past the end of the view; otherwise they return the bytes at
  the index, read as an unsigned or two's complement number in the byte order asked for.
\<close>

definition view_bytes :: "byte list \<Rightarrow> int \<Rightarrow> nat \<Rightarrow> error + byte list" where
  "view_bytes buf idx n =
     (if 0 \<le> idx \<and> idx + int n \<le> int (length buf)
      then Inr (take n (drop (nat idx) buf)) else Inl RangeError)"

fun le_uint :: "byte list \<Rightarrow> int" where
  "le_uint [] = 0"
| "le_uint (b # bs) = uint b + 256 * le_uint bs"

definition bytes_value :: "bool \<Rightarrow> bool \<Rightarrow> byte list \<Rightarrow> int" where
  "bytes_value is_signed littleEndian bs =
     (let u = le_uint (if littleEndian then bs else rev bs)
      in if is_signed \<and> u \<ge> 2 ^ (8 * length bs - 1) then u - 2 ^ (8 * length bs) else u)"

definition read_typed ::
  "nat \<Rightarrow> bool \<Rightarrow> bool \<Rightarrow> 'a DataStream_scheme \<Rightarrow> error + int \<times> 'a DataStream_scheme" where
  "read_typed width is_signed littleEndian ds =
     (case view_bytes (buffer ds) (pointer ds) width of
        Inl e \<Rightarrow> Inl e
      | Inr bs \<Rightarrow>
          Inr (bytes_value is_signed littleEndian bs, ds\<lparr>pointer := pointer ds + int width\<rparr>))"

definition readUint8 :: "'a DataStream_scheme \<Rightarrow> error + int \<times> 'a DataStream_scheme" where
  "readUint8 = read_typed 1 False True"

definition readInt8 :: "'a DataStream_scheme \<Rightarrow> error + int \<times> 'a DataStream_scheme" where
  "readInt8 = read_typed 1 True True"

definition readUint16 :: "bool \<Rightarrow> 'a DataStream_scheme \<Rightarrow> error + int \<times> 'a DataStream_scheme" where
  "readUint16 littleEndian = read_typed 2 False littleEndian"

definition readInt16 :: "bool \<Rightarrow> 'a DataStream_scheme \<Rightarrow> error + int \<times> 'a DataStream_scheme" where
  "readInt16 littleEndian = read_typed 2 True littleEndian"

definition readUint32 :: "bool \<Rightarrow> 'a DataStream_scheme \<Rightarrow> error + int \<times> 'a DataStream_scheme" where
  "readUint32 littleEndian = read_typed 4 False littleEndian"

definition readInt32 :: "bool \<Rightarrow> 'a DataStream_scheme \<Rightarrow> error + int \<times> 'a DataStream_scheme" where
  "readInt32 littleEndian = read_typed 4 True littleEndian"

text \<open>
  The pointer is an ordinary field: \<^verbatim>\<open>seek\<close> stores whatever it is given, and the
  parsers do pass \<^verbatim>\<open>undefined\<close> (an entry read past the end of an offset table).
  \<open>jsnum\<close> has the values that then occur: an integer, \<^verbatim>\<open>undefined\<close>, and \<^verbatim>\<open>NaN\<close>,
  which is what \<^verbatim>\<open>+\<close> gives when an operand is \<^verbatim>\<open>undefined\<close> or \<^verbatim>\<open>NaN\<close>. The
  offsets the parsers compute are integers; fractions and infinities are left out.
  \<open>Cursor\<close> is the byte cursor with such a pointer, under the field names of
  \<^verbatim>\<open>fileReader\<close> (\<^verbatim>\<open>view\<close>, \<^verbatim>\<open>offset\<close>; \<^verbatim>\<open>DataStream\<close> calls them \<^verbatim>\<open>data\<close> and
  \<^verbatim>\<open>pointer\<close>). The record \<open>DataStream\<close> above is the same cursor in the states where
  the pointer is an integer.
\<close>

datatype jsnum = Num int | NaN | Undefined

definition js_add :: "jsnum \<Rightarrow> jsnum \<Rightarrow> jsnum" where
  "js_add a b = (case (a, b) of (Num x, Num y) \<Rightarrow> Num (x + y) | _ \<Rightarrow> NaN)"

record Cursor =
  view :: "byte list"
  offset :: jsnum

text \<open>
  \<^verbatim>\<open>seek(offset, whence)\<close> on this cursor: the target of the mode is stored as it is.
\<close>

definition cursor_seek_target :: "jsnum \<Rightarrow> int \<Rightarrow> 'a Cursor_scheme \<Rightarrow> jsnum" where
  "cursor_seek_target off whence c =
     (if whence = 2 then js_add (Num (int (length (view c)))) off
      else if whence = 1 then js_add (offset c) off
      else off)"

definition cursor_seek :: "jsnum \<Rightarrow> int \<Rightarrow> 'a Cursor_scheme \<Rightarrow> 'a Cursor_scheme" where
  "cursor_seek off whence c = c\<lparr>offset := cursor_seek_target off whence c\<rparr>"

text \<open>
  The accessors of \<^verbatim>\<open>DataView\<close> convert the index they are given
  (\<^verbatim>\<open>ToIndex\<close>): \<^verbatim>\<open>undefined\<close> and \<^verbatim>\<open>NaN\<close> become 0. After a read that returns, the
  method adds the width to the pointer.
\<close>

definition to_index :: "jsnum \<Rightarrow> int" where
  "to_index a = (case a of Num k \<Rightarrow> k | _ \<Rightarrow> 0)"

definition cursor_read ::
  "nat \<Rightarrow> bool \<Rightarrow> bool \<Rightarrow> 'a Cursor_scheme \<Rightarrow> error + int \<times> 'a Cursor_scheme" where
  "cursor_read width is_signed littleEndian c =
     (case view_bytes (view c) (to_index (offset c)) width of
        Inl e \<Rightarrow> Inl e
      | Inr bs \<Rightarrow>
          Inr (bytes_value is_signed littleEndian bs,
               c\<lparr>offset := js_add (offset c) (Num (int width))\<rparr>))"

definition cursor_readUint8 :: "'a Cursor_scheme \<Rightarrow> error + int \<times> 'a Cursor_scheme" where
  "cursor_readUint8 = cursor_read 1 False True"

definition cursor_readInt8 :: "'a Cursor_scheme \<Rightarrow> error + int \<times> 'a Cursor_scheme" where
  "cursor_readInt8 = cursor_read 1 True True"



definition cursor_readUint32 :: "bool \<Rightarrow> 'a Cursor_scheme \<Rightarrow> error + int \<times> 'a Cursor_scheme" where
  "cursor_readUint32 littleEndian = cursor_read 4 False littleEndian"




text \<open>A \<open>DataStream\<close> of the integer model as a cursor.\<close>

definition as_cursor :: "'a DataStream_scheme \<Rightarrow> Cursor" where
  "as_cursor ds = \<lparr>view = buffer ds, offset = Num (pointer ds)\<rparr>"

section \<open>Format dispatch\<close>

text \<open>
  \<^verbatim>\<open>parseSource\<close>, after the loader has produced the buffer: the first four bytes are
  packed big-endian into a 32-bit integer (an index past the end of the sliced array
  reads \<^verbatim>\<open>undefined\<close>, which the shifts take as 0) and compared with the two magics.
  The result says which constructor the promise calls, or that it rejects.
\<close>

datatype dispatch = NewPpmParser | NewKwzParser | Reject

definition magic_byte :: "byte list \<Rightarrow> nat \<Rightarrow> byte" where
  "magic_byte arrayBuffer i = (if i < length (take 4 arrayBuffer) then arrayBuffer ! i else 0)"

definition source_magic :: "byte list \<Rightarrow> 32 word" where
  "source_magic arrayBuffer =
     push_bit 24 (ucast (magic_byte arrayBuffer 0)) OR
     push_bit 16 (ucast (magic_byte arrayBuffer 1)) OR
     push_bit 8 (ucast (magic_byte arrayBuffer 2)) OR ucast (magic_byte arrayBuffer 3)"

definition parseSource :: "byte list \<Rightarrow> dispatch" where
  "parseSource arrayBuffer =
     (let magic = source_magic arrayBuffer
      in if magic = 0x50415241 then NewPpmParser
         else if magic AND 0xFFFFFF00 = 0x4B464800 then NewKwzParser
         else Reject)"

section \<open>ADPCM decoding\<close>

definition ADPCM_INDEX_TABLE_2BIT :: "int list" where
  "ADPCM_INDEX_TABLE_2BIT = [- 1, 2, - 1, 2]"

definition ADPCM_INDEX_TABLE_4BIT :: "int list" where
  "ADPCM_INDEX_TABLE_4BIT = [- 1, - 1, - 1, - 1, 2, 4, 6, 8, - 1, - 1, - 1, - 1, 2, 4, 6, 8]"

definition ADPCM_STEP_TABLE :: "int list" where
  "ADPCM_STEP_TABLE =
     [7, 8, 9, 10, 11, 12, 13, 14, 16, 17,
      19, 21, 23, 25, 28, 31, 34, 37, 41, 45,
      50, 55, 60, 66, 73, 80, 88, 97, 107, 118,
      130, 143, 157, 173, 190, 209, 230, 253, 279, 307,
      337, 371, 408, 449, 494, 544, 598, 658, 724, 796,
      876, 963, 1060, 1166, 1282, 1411, 1552, 1707, 1878, 2066,
      2272, 2499, 2749, 3024, 3327, 3660, 4026, 4428, 4871, 5358,
      5894, 6484, 7132, 7845, 8630, 9493, 10442, 11487, 12635, 13899,
      15289, 16818, 18500, 20350, 22385, 24623, 27086, 29794, 32767, 0]"

text \<open>
  The difference a 4-bit sample adds to the predictor, and the one of a 2-bit sample,
  as both \<^verbatim>\<open>decodeAudioTrack\<close> methods compute them.
\<close>

definition diff_4bit :: "int \<Rightarrow> int \<Rightarrow> int" where
  "diff_4bit step sample =
     (let d0 = drop_bit 3 step;
          d1 = (if sample AND 1 \<noteq> 0 then d0 + drop_bit 2 step else d0);
          d2 = (if sample AND 2 \<noteq> 0 then d1 + drop_bit 1 step else d1);
          d3 = (if sample AND 4 \<noteq> 0 then d2 + step else d2)
      in if sample AND 8 \<noteq> 0 then - d3 else d3)"

definition diff_2bit :: "int \<Rightarrow> int \<Rightarrow> int" where
  "diff_2bit step sample =
     (let d0 = drop_bit 3 step;
          d1 = (if sample AND 1 \<noteq> 0 then d0 + step else d0)
      in if sample AND 2 \<noteq> 0 then - d1 else d1)"

text \<open>
  Format A, \<^verbatim>\<open>PpmParser.decodeAudioTrack\<close>, on the raw bytes of the track: the loop
  takes the low nibble of a byte, then its high nibble, and moves on. Each round
  stores the clamped predictor into the \<^verbatim>\<open>Int16Array\<close> at the next position.
\<close>

function ppm_decode_loop ::
  "byte list \<Rightarrow> nat \<Rightarrow> bool \<Rightarrow> int \<Rightarrow> int \<Rightarrow> int list \<Rightarrow> int list" where
  "ppm_decode_loop src srcPtr lowNibble stepIndex predictor dst =
     (if srcPtr < length src then
        let sample = (if lowNibble then uint (src ! srcPtr) AND 0xF
                      else drop_bit 4 (uint (src ! srcPtr)));
            srcPtr' = (if lowNibble then srcPtr else srcPtr + 1);
            step = ADPCM_STEP_TABLE ! nat stepIndex;
            predictor' = clamp (predictor + diff_4bit step sample) (- 32768) 32767;
            stepIndex' = clamp (stepIndex + ADPCM_INDEX_TABLE_4BIT ! nat sample) 0 88
        in ppm_decode_loop src srcPtr' (\<not> lowNibble) stepIndex' predictor'
             (dst @ [toInt16 predictor'])
      else dst)"
  by pat_completeness auto
termination
  by (relation "measure (\<lambda>(src, srcPtr, lowNibble, stepIndex, predictor, dst).
        2 * (length src - srcPtr) + (if lowNibble then 1 else 0))") auto

definition ppm_decodeAudioTrack :: "byte list \<Rightarrow> int list" where
  "ppm_decodeAudioTrack src = ppm_decode_loop src 0 True 0 0 []"

text \<open>
  Format B, \<^verbatim>\<open>KwzParser.decodeAudioTrack\<close>. The inner loop takes 2-bit or 4-bit
  samples from the current byte until 8 bits are used; the outer loop walks the bytes.
  The output array holds \<open>16364 * 60\<close> samples: stores beyond it are dropped and the
  final \<^verbatim>\<open>slice\<close> stops at its end.
\<close>

record KwzParserSettings =
  quickMeta :: bool
  dsiLibraryNote :: bool
  cleanerAudio :: bool

function kwz_decode_byte ::
  "int \<Rightarrow> int \<Rightarrow> int \<times> int \<times> int list \<Rightarrow> int \<times> int \<times> int list" where
  "kwz_decode_byte currByte currBit (predictor, stepIndex, output) =
     (if currBit < 8 then
        (if stepIndex < 18 \<or> currBit > 4 then
           let sample = currByte AND 0x3;
               step = ADPCM_STEP_TABLE ! nat stepIndex;
               predictor' = predictor + diff_2bit step sample;
               stepIndex' = stepIndex + ADPCM_INDEX_TABLE_2BIT ! nat sample;
               stepIndex'' = clamp stepIndex' 0 79;
               predictor'' = clamp predictor' (- 2048) 2047
           in kwz_decode_byte (drop_bit 2 currByte) (currBit + 2)
                (predictor'', stepIndex'', output @ [toInt16 (predictor'' * 16)])
         else
           let sample = currByte AND 0xF;
               step = ADPCM_STEP_TABLE ! nat stepIndex;
               predictor' = predictor + diff_4bit step sample;
               stepIndex' = stepIndex + ADPCM_INDEX_TABLE_4BIT ! nat sample;
               stepIndex'' = clamp stepIndex' 0 79;
               predictor'' = clamp predictor' (- 2048) 2047
           in kwz_decode_byte (drop_bit 4 currByte) (currBit + 4)
                (predictor'', stepIndex'', output @ [toInt16 (predictor'' * 16)]))
      else (predictor, stepIndex, output))"
  by pat_completeness auto
termination
  by (relation "measure (\<lambda>(currByte, currBit, st). nat (8 - currBit))") auto

fun kwz_decode_bytes :: "byte list \<Rightarrow> int \<times> int \<times> int list \<Rightarrow> int \<times> int \<times> int list" where
  "kwz_decode_bytes [] st = st"
| "kwz_decode_bytes (b # adpcm) st = kwz_decode_bytes adpcm (kwz_decode_byte (uint b) 0 st)"

definition kwz_decodeAudioTrack :: "KwzParserSettings \<Rightarrow> byte list \<Rightarrow> int list" where
  "kwz_decodeAudioTrack settings adpcm =
     (let stepIndex = (if cleanerAudio settings \<and> \<not> dsiLibraryNote settings then 0 else 40)
      in take (16364 * 60) (snd (snd (kwz_decode_bytes adpcm (0, stepIndex, [])))))"

text \<open>The ranges of the samples the two decoders emit.\<close>

definition pcm_ok :: "int \<Rightarrow> bool" where
  "pcm_ok s = (- 32768 \<le> s \<and> s \<le> 32767)"

definition kwz_ok :: "int \<Rightarrow> bool" where
  "kwz_ok s = (- 32768 \<le> s \<and> s \<le> 32752 \<and> 16 dvd s)"

declare kwz_decode_byte.simps [simp del] ppm_decode_loop.simps [simp del]

section \<open>Format B parser state and bit cursor\<close>

text \<open>
  The fields of a \<^verbatim>\<open>KwzParser\<close> that frame decoding uses, on top of the byte
  cursor it extends: the three layer buffers, the index of the frame decoded last
  (\<open>None\<close> for \<^verbatim>\<open>null\<close>), the tables built by \<^verbatim>\<open>getFrameOffsets\<close> and the state
  of the bit cursor. \<^verbatim>\<open>bitValue\<close> holds a 32-bit integer: the bitwise operators of
  the source work on such values.
\<close>

record KwzParser = DataStream +
  settings :: KwzParserSettings
  frameCount :: nat
  frameMetaOffsets :: "nat list"
  frameDataOffsets :: "nat list"
  frameLayerSizes :: "nat list list"
  layers :: "byte list list"
  prevFrameIndex :: "nat option"
  bitIndex :: int
  bitValue :: "32 word"

text \<open>
  \<^verbatim>\<open>BITMASKS\<close> has 16 entries, \<open>(1 << i) - 1\<close> for \<open>i\<close> from 0 to 15. Indexing it
  elsewhere gives \<^verbatim>\<open>undefined\<close>, which \<^verbatim>\<open>&\<close> takes as 0.
\<close>

definition BITMASKS :: "32 word list" where
  "BITMASKS = map (\<lambda>i. push_bit i 1 - 1) [0 ..< 16]"

definition bitmask :: "int \<Rightarrow> 32 word" where
  "bitmask num = (if 0 \<le> num \<and> num < 16 then BITMASKS ! nat num else 0)"

text \<open>The shifts \<^verbatim>\<open><<\<close> and \<^verbatim>\<open>>>\<close> on 32-bit integers: the count is taken modulo 32.\<close>

definition js_shl :: "32 word \<Rightarrow> int \<Rightarrow> 32 word" where
  "js_shl w k = push_bit (nat (k mod 32)) w"

definition js_sar :: "32 word \<Rightarrow> int \<Rightarrow> 32 word" where
  "js_sar w k = signed_drop_bit (nat (k mod 32)) w"

text \<open>\<^verbatim>\<open>KwzParser.readBits(num)\<close>.\<close>

definition readBits :: "int \<Rightarrow> 'a KwzParser_scheme \<Rightarrow> error + int \<times> 'a KwzParser_scheme" where
  "readBits num p =
     (case (if bitIndex p + num > 16 then
              (case readUint16 True p of
                 Inl e \<Rightarrow> Inl e
               | Inr (nextBits, p1) \<Rightarrow>
                   Inr (p1\<lparr>bitValue := bitValue p1 OR js_shl (word_of_int nextBits) (16 - bitIndex p1),
                           bitIndex := bitIndex p1 - 16\<rparr>))
            else Inr p) of
        Inl e \<Rightarrow> Inl e
      | Inr p2 \<Rightarrow>
          Inr (sint (bitValue p2 AND bitmask num),
               p2\<lparr>bitValue := js_sar (bitValue p2) num, bitIndex := bitIndex p2 + num\<rparr>))"

text \<open>A run of \<^verbatim>\<open>readBits\<close> calls with the given widths, collecting the results.\<close>

fun readBits_seq :: "int list \<Rightarrow> 'a KwzParser_scheme \<Rightarrow> error + int list \<times> 'a KwzParser_scheme" where
  "readBits_seq [] p = Inr ([], p)"
| "readBits_seq (num # nums) p =
     (case readBits num p of
        Inl e \<Rightarrow> Inl e
      | Inr (v, p') \<Rightarrow>
          (case readBits_seq nums p' of
             Inl e \<Rightarrow> Inl e
           | Inr (vs, p'') \<Rightarrow> Inr (v # vs, p'')))"

text \<open>
  The bit stream of the file: bit \<open>j\<close> is bit \<open>j mod 8\<close> of byte \<open>j div 8\<close>, which is the
  order in which little-endian 16-bit words taken in file order give up their bits
  from the least significant end. \<open>stream_pos\<close> is the position in that stream of the
  next bit the cursor will return: the bits of the bytes before the pointer, less the
  bits still waiting in the accumulator. \<open>bits_ok\<close> says that the accumulator holds
  exactly those waiting bits.
\<close>

definition file_bit :: "byte list \<Rightarrow> nat \<Rightarrow> bool" where
  "file_bit buf j = bit (buf ! (j div 8)) (j mod 8)"

definition pending_bits :: "'a KwzParser_scheme \<Rightarrow> int" where
  "pending_bits p = 16 - bitIndex p"

definition stream_pos :: "'a KwzParser_scheme \<Rightarrow> int" where
  "stream_pos p = 8 * pointer p - pending_bits p"

definition bits_ok :: "'a KwzParser_scheme \<Rightarrow> bool" where
  "bits_ok p =
     (0 \<le> bitIndex p \<and> bitIndex p \<le> 16 \<and> 0 \<le> stream_pos p \<and> pointer p \<le> byteLength p \<and>
      (\<forall>i. bit (bitValue p) i \<longleftrightarrow>
             int i < pending_bits p \<and> file_bit (buffer p) (nat (stream_pos p) + i)))"

text \<open>
  A parser over the given bytes with the cursor at their start and the bit cursor in
  the state \<^verbatim>\<open>decodeFrame\<close> gives it before each layer (\<open>bitIndex = 16\<close>,
  \<open>bitValue = 0\<close>); it has no frames.
\<close>

definition bit_cursor :: "byte list \<Rightarrow> KwzParser" where
  "bit_cursor buf =
     \<lparr>buffer = buf, pointer = 0,
      settings = \<lparr>quickMeta = False, dsiLibraryNote = False, cleanerAudio = False\<rparr>,
      frameCount = 0, frameMetaOffsets = [], frameDataOffsets = [], frameLayerSizes = [],
      layers = [], prevFrameIndex = None, bitIndex = 16, bitValue = 0\<rparr>"

section \<open>Format B frame decoding\<close>

text \<open>Sequencing of steps that may throw: the first error ends the computation.\<close>

definition bindE :: "error + 'a \<Rightarrow> ('a \<Rightarrow> error + 'b) \<Rightarrow> error + 'b" where
  "bindE m f = (case m of Inl e \<Rightarrow> Inl e | Inr x \<Rightarrow> f x)"

text \<open>
  The line tables. The nested loops over \<open>a, \<dots>, h\<close> in \<open>0 .. 2\<close> fill entry
  \<open>a * 3^7 + \<dots> + h\<close> of \<^verbatim>\<open>KWZ_LINE_TABLE\<close> with the pixels \<open>b a d c f e h g\<close> and the
  same entry of \<^verbatim>\<open>KWZ_LINE_TABLE_SHIFT\<close> with \<open>a d c f e h g b\<close>. The decoder only takes
  8-byte \<^verbatim>\<open>subarray\<close>s at 8 times an index: the model gives the table as the function
  from the index to that subarray, which is empty for an index past the 6561 entries.
\<close>

definition line_digit :: "nat \<Rightarrow> nat \<Rightarrow> byte" where
  "line_digit i k = of_nat (i div 3 ^ k mod 3)"

definition KWZ_LINE_TABLE :: "nat \<Rightarrow> byte list" where
  "KWZ_LINE_TABLE i =
     (if i < 6561 then
        (let a = line_digit i 7; b = line_digit i 6; c = line_digit i 5; d = line_digit i 4;
             e = line_digit i 3; f = line_digit i 2; g = line_digit i 1; h = line_digit i 0
         in [b, a, d, c, f, e, h, g])
      else [])"

definition KWZ_LINE_TABLE_SHIFT :: "nat \<Rightarrow> byte list" where
  "KWZ_LINE_TABLE_SHIFT i =
     (if i < 6561 then
        (let a = line_digit i 7; b = line_digit i 6; c = line_digit i 5; d = line_digit i 4;
             e = line_digit i 3; f = line_digit i 2; g = line_digit i 1; h = line_digit i 0
         in [a, d, c, f, e, h, g, b])
      else [])"

definition common_line_indices :: "nat list" where
  "common_line_indices =
     [0x0000, 0x0CD0, 0x19A0, 0x02D9, 0x088B, 0x0051, 0x00F3, 0x0009,
      0x001B, 0x0001, 0x0003, 0x05B2, 0x1116, 0x00A2, 0x01E6, 0x0012,
      0x0036, 0x0002, 0x0006, 0x0B64, 0x08DC, 0x0144, 0x00FC, 0x0024,
      0x001C, 0x0004, 0x0334, 0x099C, 0x0668, 0x1338, 0x1004, 0x166C]"

definition KWZ_LINE_TABLE_COMMON :: "nat \<Rightarrow> byte list" where
  "KWZ_LINE_TABLE_COMMON i = (if i < 32 then KWZ_LINE_TABLE (common_line_indices ! i) else [])"

definition KWZ_LINE_TABLE_COMMON_SHIFT :: "nat \<Rightarrow> byte list" where
  "KWZ_LINE_TABLE_COMMON_SHIFT i =
     (if i < 32 then KWZ_LINE_TABLE_SHIFT (common_line_indices ! i) else [])"

text \<open>
  \<^verbatim>\<open>pixelBuffer.set(pixels, ptr)\<close> copies the pixels into the buffer at \<open>ptr\<close> and
  throws when they do not fit. A tile stores eight lines, 320 pixels apart.
\<close>

definition set_pixels :: "byte list \<Rightarrow> byte list \<Rightarrow> nat \<Rightarrow> error + byte list" where
  "set_pixels pixelBuffer pixels ptr =
     (if ptr + length pixels \<le> length pixelBuffer
      then Inr (take ptr pixelBuffer @ pixels @ drop (ptr + length pixels) pixelBuffer)
      else Inl RangeError)"

fun set_rows :: "byte list list \<Rightarrow> nat \<Rightarrow> byte list \<Rightarrow> error + byte list" where
  "set_rows [] pixelBufferPtr pixelBuffer = Inr pixelBuffer"
| "set_rows (pixels # rows) pixelBufferPtr pixelBuffer =
     bindE (set_pixels pixelBuffer pixels pixelBufferPtr) (set_rows rows (pixelBufferPtr + 320))"

text \<open>
  Tile type 4: for each of the masks \<open>1, 2, \<dots>, 128\<close> the loop reads a 5-bit index
  into the common table when the flag bit is set and a 13-bit index into the full
  table otherwise, stores the line and moves one row down.
\<close>

fun decodeTile4 ::
  "int \<Rightarrow> int list \<Rightarrow> 'a KwzParser_scheme \<times> byte list \<times> nat \<Rightarrow>
   error + 'a KwzParser_scheme \<times> byte list \<times> nat" where
  "decodeTile4 flags [] st = Inr st"
| "decodeTile4 flags (mask_bit # masks) (p, pixelBuffer, pixelBufferPtr) =
     bindE (if flags AND mask_bit \<noteq> 0
            then bindE (readBits 5 p) (\<lambda>(v, p'). Inr (KWZ_LINE_TABLE_COMMON (nat v), p'))
            else bindE (readBits 13 p) (\<lambda>(v, p'). Inr (KWZ_LINE_TABLE (nat v), p')))
       (\<lambda>(pixels, p').
          bindE (set_pixels pixelBuffer pixels pixelBufferPtr)
            (\<lambda>pixelBuffer'. decodeTile4 flags masks (p', pixelBuffer', pixelBufferPtr + 320)))"

text \<open>The row patterns of tile type 7, by pattern number.\<close>

definition pattern_rows :: "int \<Rightarrow> byte list \<Rightarrow> byte list \<Rightarrow> byte list list" where
  "pattern_rows pattern a b =
     (if pattern = 0 then [a, b, a, b, a, b, a, b]
      else if pattern = 1 then [a, a, b, a, a, b, a, a]
      else if pattern = 2 then [a, b, a, a, b, a, a, b]
      else if pattern = 3 then [a, b, b, a, b, b, a, b]
      else [])"

text \<open>
  The body of the innermost tile loop, for the tile at \<open>(x, y)\<close>. The state is the skip
  counter, the parser (for the bit cursor) and the pixel buffer of the layer.
\<close>

definition decodeTile ::
  "nat \<times> nat \<Rightarrow> nat \<times> 'a KwzParser_scheme \<times> byte list \<Rightarrow>
   error + nat \<times> 'a KwzParser_scheme \<times> byte list" where
  "decodeTile xy st =
     (case (xy, st) of ((x, y), (skipTileCounter, p, pixelBuffer)) \<Rightarrow>
      if skipTileCounter > 0 then Inr (skipTileCounter - 1, p, pixelBuffer)
      else
        let pixelBufferPtr = y * 320 + x in
        bindE (readBits 3 p) (\<lambda>(tileType, p1).
          if tileType = 0 then
            bindE (readBits 5 p1) (\<lambda>(v, p2).
              let pixels = KWZ_LINE_TABLE_COMMON (nat v) in
              bindE (set_rows [pixels, pixels, pixels, pixels, pixels, pixels, pixels, pixels]
                       pixelBufferPtr pixelBuffer)
                (\<lambda>buf. Inr (0, p2, buf)))
          else if tileType = 1 then
            bindE (readBits 13 p1) (\<lambda>(v, p2).
              let pixels = KWZ_LINE_TABLE (nat v) in
              bindE (set_rows [pixels, pixels, pixels, pixels, pixels, pixels, pixels, pixels]
                       pixelBufferPtr pixelBuffer)
                (\<lambda>buf. Inr (0, p2, buf)))
          else if tileType = 2 then
            bindE (readBits 5 p1) (\<lambda>(v, p2).
              let a = KWZ_LINE_TABLE_COMMON (nat v); b = KWZ_LINE_TABLE_COMMON_SHIFT (nat v) in
              bindE (set_rows [a, b, a, b, a, b, a, b] pixelBufferPtr pixelBuffer)
                (\<lambda>buf. Inr (0, p2, buf)))
          else if tileType = 3 then
            bindE (readBits 13 p1) (\<lambda>(v, p2).
              let a = KWZ_LINE_TABLE (nat v); b = KWZ_LINE_TABLE_SHIFT (nat v) in
              bindE (set_rows [a, b, a, b, a, b, a, b] pixelBufferPtr pixelBuffer)
                (\<lambda>buf. Inr (0, p2, buf)))
          else if tileType = 4 then
            bindE (readBits 8 p1) (\<lambda>(flags, p2).
              bindE (decodeTile4 flags [1, 2, 4, 8, 16, 32, 64, 128] (p2, pixelBuffer, pixelBufferPtr))
                (\<lambda>(p3, buf, ptr). Inr (0, p3, buf)))
          else if tileType = 5 then
            bindE (readBits 5 p1) (\<lambda>(v, p2). Inr (nat v, p2, pixelBuffer))
          else if tileType = 7 then
            bindE (readBits 2 p1) (\<lambda>(pattern, p2).
              bindE (readBits 1 p2) (\<lambda>(useCommonLines, p3).
                if useCommonLines \<noteq> 0 then
                  bindE (readBits 5 p3) (\<lambda>(va, p4).
                    bindE (readBits 5 p4) (\<lambda>(vb, p5).
                      let a = KWZ_LINE_TABLE_COMMON (nat va); b = KWZ_LINE_TABLE_COMMON (nat vb);
                          pattern' = (pattern + 1) mod 4 in
                      bindE (set_rows (pattern_rows pattern' a b) pixelBufferPtr pixelBuffer)
                        (\<lambda>buf. Inr (0, p5, buf))))
                else
                  bindE (readBits 13 p3) (\<lambda>(va, p4).
                    bindE (readBits 13 p4) (\<lambda>(vb, p5).
                      let a = KWZ_LINE_TABLE (nat va); b = KWZ_LINE_TABLE (nat vb) in
                      bindE (set_rows (pattern_rows pattern a b) pixelBufferPtr pixelBuffer)
                        (\<lambda>buf. Inr (0, p5, buf))))))
          else Inr (0, p1, pixelBuffer)))"

text \<open>
  The four nested tile loops visit the tiles in a fixed order: large tiles of 128 by
  128 pixels row by row, and in each the small tiles of 8 by 8 row by row. The two
  \<^verbatim>\<open>break\<close>s leave a loop when the tile is outside the 320 by 240 frame; the offsets
  grow, so every later tile of that loop is outside too.
\<close>

definition sub_offsets :: "nat list" where
  "sub_offsets = [0, 8, 16, 24, 32, 40, 48, 56, 64, 72, 80, 88, 96, 104, 112, 120]"

definition tile_positions :: "(nat \<times> nat) list" where
  "tile_positions =
     concat (map (\<lambda>tileOffsetY.
       concat (map (\<lambda>tileOffsetX.
         concat (map (\<lambda>subTileOffsetY.
           if tileOffsetY + subTileOffsetY \<ge> 240 then []
           else concat (map (\<lambda>subTileOffsetX.
                  if tileOffsetX + subTileOffsetX \<ge> 320 then []
                  else [(tileOffsetX + subTileOffsetX, tileOffsetY + subTileOffsetY)])
                sub_offsets))
           sub_offsets))
         [0, 128, 256]))
       [0, 128])"

fun decodeTiles ::
  "(nat \<times> nat) list \<Rightarrow> nat \<times> 'a KwzParser_scheme \<times> byte list \<Rightarrow>
   error + nat \<times> 'a KwzParser_scheme \<times> byte list" where
  "decodeTiles [] st = Inr st"
| "decodeTiles (xy # tiles) st = bindE (decodeTile xy st) (decodeTiles tiles)"

text \<open>
  \<^verbatim>\<open>getFrameDiffingFlag\<close>: bits 4 to 6 of the 32-bit flags at the start of the
  frame's meta record.
\<close>

definition getFrameDiffingFlag :: "nat \<Rightarrow> KwzParser \<Rightarrow> error + int \<times> KwzParser" where
  "getFrameDiffingFlag frameIndex p =
     bindE (readUint32 True (seek (int (frameMetaOffsets p ! frameIndex)) 0 p))
       (\<lambda>(flags, p'). Inr (drop_bit 4 flags AND 0x07, p'))"

text \<open>
  One round of the layer loop of \<^verbatim>\<open>decodeFrame\<close>, on the running \<^verbatim>\<open>framePtr\<close> and
  the parser. The pixel buffer is the array \<^verbatim>\<open>layers[layerIndex]\<close> itself, so what the
  tiles store is stored in the parser's layer.
\<close>

definition decodeLayer ::
  "nat \<Rightarrow> int \<Rightarrow> nat \<Rightarrow> nat \<times> KwzParser \<Rightarrow> error + nat \<times> KwzParser" where
  "decodeLayer frameIndex diffingFlag layerIndex st =
     (case st of (framePtr, p) \<Rightarrow>
      let p1 = seek (int framePtr) 0 p;
          layerSize = frameLayerSizes p ! frameIndex ! layerIndex;
          framePtr' = framePtr + layerSize;
          pixelBuffer = layers p ! layerIndex
      in if layerSize = 38 then Inr (framePtr', p1)
         else if drop_bit layerIndex diffingFlag AND 0x1 = 0 then Inr (framePtr', p1)
         else bindE (decodeTiles tile_positions (0, p1\<lparr>bitIndex := 16, bitValue := 0\<rparr>, pixelBuffer))
                (\<lambda>(skipTileCounter, p2, buf).
                   Inr (framePtr', p2\<lparr>layers := (layers p2)[layerIndex := buf]\<rparr>)))"

function decodeLayers ::
  "nat \<Rightarrow> int \<Rightarrow> nat \<Rightarrow> nat \<times> KwzParser \<Rightarrow> error + nat \<times> KwzParser" where
  "decodeLayers frameIndex diffingFlag layerIndex st =
     (if layerIndex < 3 then
        (if dsiLibraryNote (settings (snd st)) \<and> layerIndex = 3 then Inr st
         else (case decodeLayer frameIndex diffingFlag layerIndex st of
                 Inl e \<Rightarrow> Inl e
               | Inr st' \<Rightarrow> decodeLayers frameIndex diffingFlag (layerIndex + 1) st'))
      else Inr st)"
  by pat_completeness auto
termination
  by (relation "measure (\<lambda>(frameIndex, diffingFlag, layerIndex, st). 3 - layerIndex)") auto

text \<open>
  \<^verbatim>\<open>decodeFrame(frameIndex, diffingFlag = 0x7, isPrevFrame = false)\<close>. The test
  \<^verbatim>\<open>prevFrameIndex !== frameIndex - 1\<close> is only consulted for a frame index other than
  0. The tables are indexed below \<open>frameCount\<close>, where \<^verbatim>\<open>getFrameOffsets\<close> has filled
  them.
\<close>

function decodeFrame :: "nat \<Rightarrow> int \<Rightarrow> bool \<Rightarrow> KwzParser \<Rightarrow> error + KwzParser" where
  "decodeFrame frameIndex diffingFlag isPrevFrame p =
     (if \<not> frameIndex < frameCount p then Inl AssertFailed
      else
        (case (if prevFrameIndex p \<noteq> Some (frameIndex - 1) \<and> frameIndex \<noteq> 0 then
                 (case (if isPrevFrame then
                          (case getFrameDiffingFlag (frameIndex + 1) p of
                             Inl e \<Rightarrow> Inl e
                           | Inr (flag, p1) \<Rightarrow> Inr (diffingFlag AND NOT flag, p1))
                        else Inr (diffingFlag, p)) of
                    Inl e \<Rightarrow> Inl e
                  | Inr (diffingFlag', p1) \<Rightarrow>
                      if diffingFlag' \<noteq> 0 then
                        (case decodeFrame (frameIndex - 1) diffingFlag' True p1 of
                           Inl e \<Rightarrow> Inl e
                         | Inr p2 \<Rightarrow> Inr (diffingFlag', p2))
                      else Inr (diffingFlag', p1))
               else Inr (diffingFlag, p)) of
           Inl e \<Rightarrow> Inl e
         | Inr (diffingFlag', p3) \<Rightarrow>
             (case decodeLayers frameIndex diffingFlag' 0 (frameDataOffsets p3 ! frameIndex, p3) of
                Inl e \<Rightarrow> Inl e
              | Inr (framePtr, p4) \<Rightarrow> Inr (p4\<lparr>prevFrameIndex := Some frameIndex\<rparr>))))"
  by pat_completeness auto
termination
  by (relation "measure (\<lambda>(frameIndex, diffingFlag, isPrevFrame, p). frameIndex)") auto

declare decodeLayers.simps [simp del] decodeFrame.simps [simp del]

text \<open>Decoding the frames \<open>0, 1, \<dots>, i\<close> one after the other with the default arguments.\<close>

fun decodeFrames :: "nat list \<Rightarrow> KwzParser \<Rightarrow> error + KwzParser" where
  "decodeFrames [] p = Inr p"
| "decodeFrames (frameIndex # rest) p = bindE (decodeFrame frameIndex 0x7 False p) (decodeFrames rest)"

text \<open>
  What the constructor leaves behind, as far as frame decoding goes: three zeroed
  layers of 320 by 240 pixels, no frame decoded, and offset tables with one entry per
  frame; each meta record lies inside the file (\<^verbatim>\<open>getFrameOffsets\<close> asserts that the
  pointer after the record is below the file length).
\<close>

definition kwz_tables_ok :: "KwzParser \<Rightarrow> bool" where
  "kwz_tables_ok p =
     (length (frameMetaOffsets p) = frameCount p \<and>
      length (frameDataOffsets p) = frameCount p \<and>
      length (frameLayerSizes p) = frameCount p \<and>
      list_all (\<lambda>sizes. length sizes = 3) (frameLayerSizes p) \<and>
      list_all (\<lambda>ptr. ptr + 28 < length (buffer p)) (frameMetaOffsets p))"

definition kwz_layers_ok :: "KwzParser \<Rightarrow> bool" where
  "kwz_layers_ok p = (length (layers p) = 3 \<and> list_all (\<lambda>b. length b = 320 * 240) (layers p))"

definition kwz_fresh :: "KwzParser \<Rightarrow> bool" where
  "kwz_fresh p =
     (layers p = replicate 3 (replicate (320 * 240) 0) \<and> prevFrameIndex p = None)"

text \<open>
  An example file of three frames. Its first 344 bytes are the pixel data: layer A of
  frame 0 takes 40 bytes (a tile of type 0 with common line 1, the line of eight
  pixels of colour 1, then 38 skip commands that cover the other 1199 tiles, then a
  padding byte), and each of the other eight layers is 38 bytes of skip commands.
  The three 28-byte meta records follow at 344, 372 and 400; the diffing flags are 7
  for frames 0 and 2 and 0 for frame 1.
\<close>

definition kwz_example_file :: "byte list" where
  "kwz_example_file =
     [0x08, 0xFD, 0xFD, 0xFD, 0xFD, 0xFD, 0xFD, 0xFD, 0xFD, 0xFD, 0xFD, 0xFD, 0xFD, 0xFD, 0xFD, 0xFD,
      0xFD, 0xFD, 0xFD, 0xFD, 0xFD, 0xFD, 0xFD, 0xFD, 0xFD, 0xFD, 0xFD, 0xFD, 0xFD, 0xFD, 0xFD, 0xFD,
      0xFD, 0xFD, 0xFD, 0xFD, 0xFD, 0xFD, 0x75, 0x00, 0xFD, 0xFD, 0xFD, 0xFD, 0xFD, 0xFD, 0xFD, 0xFD,
      0xFD, 0xFD, 0xFD, 0xFD, 0xFD, 0xFD, 0xFD, 0xFD, 0xFD, 0xFD, 0xFD, 0xFD, 0xFD, 0xFD, 0xFD, 0xFD,
      0xFD, 0xFD, 0xFD, 0xFD, 0xFD, 0xFD, 0xFD, 0xFD, 0xFD, 0xFD, 0xFD, 0xFD, 0xFD, 0xFD, 0xFD, 0xFD,
      0xFD, 0xFD, 0xFD, 0xFD, 0xFD, 0xFD, 0xFD, 0xFD, 0xFD, 0xFD, 0xFD, 0xFD, 0xFD, 0xFD, 0xFD, 0xFD,
      0xFD, 0xFD, 0xFD, 0xFD, 0xFD, 0xFD, 0xFD, 0xFD, 0xFD, 0xFD, 0xFD, 0xFD, 0xFD, 0xFD, 0xFD, 0xFD,
      0xFD, 0xFD, 0xFD, 0xFD, 0xFD, 0xFD, 0xFD, 0xFD, 0xFD, 0xFD, 0xFD, 0xFD, 0xFD, 0xFD, 0xFD, 0xFD,
      0xFD, 0xFD, 0xFD, 0xFD, 0xFD, 0xFD, 0xFD, 0xFD, 0xFD, 0xFD, 0xFD, 0xFD, 0xFD, 0xFD, 0xFD, 0xFD,
      0xFD, 0xFD, 0xFD, 0xFD, 0xFD, 0xFD, 0xFD, 0xFD, 0xFD, 0xFD, 0xFD, 0xFD, 0xFD, 0xFD, 0xFD, 0xFD,
      0xFD, 0xFD, 0xFD, 0xFD, 0xFD, 0xFD, 0xFD, 0xFD, 0xFD, 0xFD, 0xFD, 0xFD, 0xFD, 0xFD, 0xFD, 0xFD,
      0xFD, 0xFD, 0xFD, 0xFD, 0xFD, 0xFD, 0xFD, 0xFD, 0xFD, 0xFD, 0xFD, 0xFD, 0xFD, 0xFD, 0xFD, 0xFD,
      0xFD, 0xFD, 0xFD, 0xFD, 0xFD, 0xFD, 0xFD, 0xFD, 0xFD, 0xFD, 0xFD, 0xFD, 0xFD, 0xFD, 0xFD, 0xFD,
      0xFD, 0xFD, 0xFD, 0xFD, 0xFD, 0xFD, 0xFD, 0xFD, 0xFD, 0xFD, 0xFD, 0xFD, 0xFD, 0xFD, 0xFD, 0xFD,
      0xFD, 0xFD, 0xFD, 0xFD, 0xFD, 0xFD, 0xFD, 0xFD, 0xFD, 0xFD, 0xFD, 0xFD, 0xFD, 0xFD, 0xFD, 0xFD,
      0xFD, 0xFD, 0xFD, 0xFD, 0xFD, 0xFD, 0xFD, 0xFD, 0xFD, 0xFD, 0xFD, 0xFD, 0xFD, 0xFD, 0xFD, 0xFD,
      0xFD, 0xFD, 0xFD, 0xFD, 0xFD, 0xFD, 0xFD, 0xFD, 0xFD, 0xFD, 0xFD, 0xFD, 0xFD, 0xFD, 0xFD, 0xFD,
      0xFD, 0xFD, 0xFD, 0xFD, 0xFD, 0xFD, 0xFD, 0xFD, 0xFD, 0xFD, 0xFD, 0xFD, 0xFD, 0xFD, 0xFD, 0xFD,
      0xFD, 0xFD, 0xFD, 0xFD, 0xFD, 0xFD, 0xFD, 0xFD, 0xFD, 0xFD, 0xFD, 0xFD, 0xFD, 0xFD, 0xFD, 0xFD,
      0xFD, 0xFD, 0xFD, 0xFD, 0xFD, 0xFD, 0xFD, 0xFD, 0xFD, 0xFD, 0xFD, 0xFD, 0xFD, 0xFD, 0xFD, 0xFD,
      0xFD, 0xFD, 0xFD, 0xFD, 0xFD, 0xFD, 0xFD, 0xFD, 0xFD, 0xFD, 0xFD, 0xFD, 0xFD, 0xFD, 0xFD, 0xFD,
      0xFD, 0xFD, 0xFD, 0xFD, 0xFD, 0xFD, 0xFD, 0xFD, 0x70, 0x00, 0x00, 0x00, 0x28, 0x00, 0x26, 0x00,
      0x26, 0x00, 0x00, 0x00, 0x00, 0x00, 0x00, 0x00, 0x00, 0x00, 0x00, 0x00, 0x00, 0x00, 0x00, 0x00,
      0x00, 0x00, 0x00, 0x00, 0x00, 0x00, 0x00, 0x00, 0x26, 0x00, 0x26, 0x00, 0x26, 0x00, 0x00, 0x00,
      0x00, 0x00, 0x00, 0x00, 0x00, 0x00, 0x00, 0x00, 0x00, 0x00, 0x00, 0x00, 0x00, 0x00, 0x00, 0x00,
      0x70, 0x00, 0x00, 0x00, 0x26, 0x00, 0x26, 0x00, 0x26, 0x00, 0x00, 0x00, 0x00, 0x00, 0x00, 0x00,
      0x00, 0x00, 0x00, 0x00, 0x00, 0x00, 0x00, 0x00, 0x00, 0x00, 0x00, 0x00, 0x00]"

definition kwz_example :: KwzParser where
  "kwz_example =
     \<lparr>buffer = kwz_example_file, pointer = 0,
      settings = \<lparr>quickMeta = False, dsiLibraryNote = False, cleanerAudio = False\<rparr>,
      frameCount = 3, frameMetaOffsets = [344, 372, 400], frameDataOffsets = [0, 116, 230],
      frameLayerSizes = [[40, 38, 38], [38, 38, 38], [38, 38, 38]],
      layers = replicate 3 (replicate (320 * 240) 0), prevFrameIndex = None,
      bitIndex = 0, bitValue = 0\<rparr>"

text \<open>The zero layer with the line of ones stored in the eight rows of the tile at \<open>(0, 0)\<close>.\<close>

definition kwz_example_layerA :: "byte list" where
  "kwz_example_layerA =
     (case set_rows (replicate 8 [1, 1, 1, 1, 1, 1, 1, 1]) 0 (replicate (320 * 240) 0) of
        Inr pixelBuffer \<Rightarrow> pixelBuffer | Inl e \<Rightarrow> [])"

section \<open>Format A frame decoding\<close>

text \<open>
  The fields of a \<^verbatim>\<open>PpmParser\<close> that frame decoding uses, on top of the byte
  cursor (with a pointer that may be \<^verbatim>\<open>undefined\<close> or \<^verbatim>\<open>NaN\<close>): the frame count,
  the frame offset table, the two layer buffers and the copies of them kept for the
  next call. \<^verbatim>\<open>lineEncodingBuffers\<close> is scratch space
  that every call clears before use; the model keeps it local to the call.
\<close>

record PpmParser = Cursor +
  ppm_frameCount :: nat
  frameOffsets :: "nat list"
  layerBuffers :: "byte list list"
  prevLayerBuffers :: "byte list list"
  prevDecodedFrame :: "nat option"

text \<open>
  An entry of an offset table (a typed array): \<^verbatim>\<open>undefined\<close> past its end. The
  table of frame offsets has at most \<^verbatim>\<open>frameCount\<close> entries and may have fewer.
\<close>

definition table_entry :: "nat list \<Rightarrow> nat \<Rightarrow> jsnum" where
  "table_entry table i = (if i < length table then Num (int (table ! i)) else Undefined)"

text \<open>\<^verbatim>\<open>isNewFrame\<close>: the top bit of the frame's header byte.\<close>

definition isNewFrame :: "nat \<Rightarrow> PpmParser \<Rightarrow> error + int \<times> PpmParser" where
  "isNewFrame frameIndex p =
     bindE (cursor_readUint8 (cursor_seek (table_entry (frameOffsets p) frameIndex) 0 p))
       (\<lambda>(header, p'). Inr (drop_bit 7 header AND 0x1, p'))"

text \<open>
  Unpacking the line types of one layer: the loop reads one byte for every four
  lines; a zero byte leaves the four (cleared) entries alone.
\<close>

function unpackLineEncoding ::
  "nat \<Rightarrow> int list \<times> 'a Cursor_scheme \<Rightarrow> error + int list \<times> 'a Cursor_scheme" where
  "unpackLineEncoding ptr (lineEncodingBuffer, ds) =
     (if ptr < length lineEncodingBuffer then
        (case cursor_readUint8 ds of
           Inl e \<Rightarrow> Inl e
         | Inr (byte, ds') \<Rightarrow>
             if byte = 0 then unpackLineEncoding (ptr + 4) (lineEncodingBuffer, ds')
             else unpackLineEncoding (ptr + 4)
                    (lineEncodingBuffer
                       [ptr := byte AND 0x03,
                        ptr + 1 := drop_bit 2 byte AND 0x03,
                        ptr + 2 := drop_bit 4 byte AND 0x03,
                        ptr + 3 := drop_bit 6 byte AND 0x03], ds'))
      else Inr (lineEncodingBuffer, ds))"
  by pat_completeness auto
termination
  by (relation "measure (\<lambda>(ptr, lineEncodingBuffer, ds). length lineEncodingBuffer - ptr)") auto

text \<open>
  The chunk loops. For line type 1 the loop stores the bits of the chunk, lowest
  first, until the rest of the chunk is zero; for line type 2 it stores all eight.
  A store outside the buffer is dropped by the typed array.
\<close>

function unpackChunk1 :: "int \<Rightarrow> nat \<Rightarrow> byte list \<Rightarrow> byte list" where
  "unpackChunk1 chunk ptr pixelBuffer =
     (if chunk > 0 then
        unpackChunk1 (drop_bit 1 chunk) (ptr + 1) (pixelBuffer[ptr := word_of_int (chunk AND 0x1)])
      else pixelBuffer)"
  by pat_completeness auto
termination
  by (relation "measure (\<lambda>(chunk, ptr, pixelBuffer). nat chunk)")
     (auto simp: drop_bit_eq_div)

fun unpackChunk2 :: "nat \<Rightarrow> int \<Rightarrow> nat \<Rightarrow> byte list \<Rightarrow> byte list" where
  "unpackChunk2 0 chunk ptr pixelBuffer = pixelBuffer"
| "unpackChunk2 (Suc n) chunk ptr pixelBuffer =
     unpackChunk2 n (drop_bit 1 chunk) (ptr + 1) (pixelBuffer[ptr := word_of_int (chunk AND 0x1)])"

text \<open>
  One round of the loop over the 32-bit line header of line types 1 and 2: when the
  top bit of the header is set, a chunk is read and unpacked at the current position.
\<close>

definition unpackChunk ::
  "bool \<Rightarrow> 32 word \<Rightarrow> nat \<Rightarrow> byte list \<times> 'a Cursor_scheme \<Rightarrow>
   error + byte list \<times> 'a Cursor_scheme" where
  "unpackChunk all_bits lineHeader pixelBufferPtr st =
     (case st of (pixelBuffer, ds) \<Rightarrow>
      if lineHeader AND 0x80000000 \<noteq> 0 then
        bindE (cursor_readUint8 ds) (\<lambda>(chunk, ds').
          Inr (if all_bits then unpackChunk2 8 chunk pixelBufferPtr pixelBuffer
               else unpackChunk1 chunk pixelBufferPtr pixelBuffer, ds'))
      else Inr (pixelBuffer, ds))"

text \<open>
  The loop itself: while the header is not zero, do a round, shift the header left by
  one and move 8 pixels on. A 32-bit value is zero after 32 shifts, so the loop makes
  at most 32 rounds; the first argument counts the rounds that are left.
\<close>

fun unpackLine ::
  "nat \<Rightarrow> bool \<Rightarrow> 32 word \<Rightarrow> nat \<Rightarrow> byte list \<times> 'a Cursor_scheme \<Rightarrow>
   error + byte list \<times> 'a Cursor_scheme" where
  "unpackLine 0 all_bits lineHeader pixelBufferPtr st = Inr st"
| "unpackLine (Suc rounds) all_bits lineHeader pixelBufferPtr st =
     (if lineHeader = 0 then Inr st
      else bindE (unpackChunk all_bits lineHeader pixelBufferPtr st)
             (unpackLine rounds all_bits (push_bit 1 lineHeader) (pixelBufferPtr + 8)))"

text \<open>Line type 3: 256 pixels from 32 bytes, a new byte every eighth pixel.\<close>

function unpackRawLine ::
  "nat \<Rightarrow> int \<Rightarrow> nat \<Rightarrow> byte list \<times> 'a Cursor_scheme \<Rightarrow>
   error + byte list \<times> 'a Cursor_scheme" where
  "unpackRawLine i chunk pixelBufferPtr (pixelBuffer, ds) =
     (if i < 256 then
        (case (if i mod 8 = 0 then cursor_readUint8 ds else Inr (chunk, ds)) of
           Inl e \<Rightarrow> Inl e
         | Inr (chunk', ds') \<Rightarrow>
             unpackRawLine (i + 1) (drop_bit 1 chunk') (pixelBufferPtr + 1)
               (pixelBuffer[pixelBufferPtr := word_of_int (chunk' AND 0x1)], ds'))
      else Inr (pixelBuffer, ds))"
  by pat_completeness auto
termination
  by (relation "measure (\<lambda>(i, chunk, pixelBufferPtr, st). 256 - i)") auto

text \<open>\<^verbatim>\<open>pixelBuffer.fill(1, start, end)\<close>, with the bounds clamped to the buffer.\<close>

definition fill_ones :: "nat \<Rightarrow> nat \<Rightarrow> byte list \<Rightarrow> byte list" where
  "fill_ones start end pixelBuffer =
     take start pixelBuffer @
     replicate (min end (length pixelBuffer) - start) 1 @
     drop (max start (min end (length pixelBuffer))) pixelBuffer"

text \<open>One line of a layer, by its line type.\<close>

definition decodeLine ::
  "int \<Rightarrow> nat \<Rightarrow> byte list \<times> 'a Cursor_scheme \<Rightarrow> error + byte list \<times> 'a Cursor_scheme" where
  "decodeLine lineType y st =
     (case st of (pixelBuffer, ds) \<Rightarrow>
      let pixelBufferPtr = y * 256 in
      if lineType = 1 then
        bindE (cursor_readUint32 False ds) (\<lambda>(lineHeader, ds').
          unpackLine 32 False (word_of_int lineHeader) pixelBufferPtr (pixelBuffer, ds'))
      else if lineType = 2 then
        bindE (cursor_readUint32 False ds) (\<lambda>(lineHeader, ds').
          unpackLine 32 True (word_of_int lineHeader) pixelBufferPtr
            (fill_ones pixelBufferPtr (pixelBufferPtr + 256) pixelBuffer, ds'))
      else if lineType = 3 then unpackRawLine 0 0 pixelBufferPtr (pixelBuffer, ds)
      else Inr (pixelBuffer, ds))"

text \<open>The loop over the 192 lines of a layer, with the line types of the layer.\<close>

function decodeLines ::
  "int list \<Rightarrow> nat \<Rightarrow> byte list \<times> 'a Cursor_scheme \<Rightarrow> error + byte list \<times> 'a Cursor_scheme" where
  "decodeLines lineEncodingBuffer y st =
     (if y < 192 then
        (case decodeLine (lineEncodingBuffer ! y) y st of
           Inl e \<Rightarrow> Inl e
         | Inr st' \<Rightarrow> decodeLines lineEncodingBuffer (y + 1) st')
      else Inr st)"
  by pat_completeness auto
termination
  by (relation "measure (\<lambda>(lineEncodingBuffer, y, st). 192 - y)") auto

text \<open>
  Merging with the previous frame: the two nested loops over \<open>y\<close> and \<open>x\<close>, with their
  \<^verbatim>\<open>continue\<close> and \<^verbatim>\<open>break\<close> tests, XOR the pixel of the previous layers at the
  translated position into both layers. The source position lies in the previous
  buffers whenever the tests pass. The translation is a pair of signed bytes.
\<close>

function mergeRow ::
  "int \<Rightarrow> int \<Rightarrow> int \<Rightarrow> int \<Rightarrow> byte list list \<Rightarrow> byte list list \<Rightarrow> byte list list" where
  "mergeRow translateX translateY y x prev cur =
     (if x < 256 then
        (if x - translateX < 0 then mergeRow translateX translateY y (x + 1) prev cur
         else if x - translateX \<ge> 256 then cur
         else
           let dest = nat (x + y * 256);
               src = nat (x + y * 256 - (translateX + translateY * 256))
           in mergeRow translateX translateY y (x + 1) prev
                [(cur ! 0)[dest := (cur ! 0) ! dest XOR (prev ! 0) ! src],
                 (cur ! 1)[dest := (cur ! 1) ! dest XOR (prev ! 1) ! src]])
      else cur)"
  by pat_completeness auto
termination
  by (relation "measure (\<lambda>(translateX, translateY, y, x, prev, cur). nat (256 - x))") auto

function mergeRows ::
  "int \<Rightarrow> int \<Rightarrow> int \<Rightarrow> byte list list \<Rightarrow> byte list list \<Rightarrow> byte list list" where
  "mergeRows translateX translateY y prev cur =
     (if y < 192 then
        (if y - translateY < 0 then mergeRows translateX translateY (y + 1) prev cur
         else if y - translateY \<ge> 192 then cur
         else mergeRows translateX translateY (y + 1) prev (mergeRow translateX translateY y 0 prev cur))
      else cur)"
  by pat_completeness auto
termination
  by (relation "measure (\<lambda>(translateX, translateY, y, prev, cur). nat (192 - y))") auto

text \<open>
  What \<^verbatim>\<open>decodeFrame\<close> does after its recursion, from the seek to the frame onwards:
  the header, the translation, the line types of both layers, the lines of both layers
  into cleared buffers, the merge with the previous layers unless the frame is a key
  frame. The result is the two layers and the stream after the frame's data.
\<close>

definition readFrame ::
  "byte list list \<Rightarrow> 'a Cursor_scheme \<Rightarrow> error + byte list list \<times> 'a Cursor_scheme" where
  "readFrame prev ds =
     bindE (cursor_readUint8 ds) (\<lambda>(header, ds1).
       let isNewFrame = drop_bit 7 header AND 0x1;
           isTranslated = drop_bit 5 header AND 0x3
       in
       bindE (if isTranslated \<noteq> 0
              then bindE (cursor_readInt8 ds1) (\<lambda>(translateX, ds2).
                     bindE (cursor_readInt8 ds2) (\<lambda>(translateY, ds3). Inr ((translateX, translateY), ds3)))
              else Inr ((0, 0), ds1))
         (\<lambda>((translateX, translateY), ds3).
            bindE (unpackLineEncoding 0 (replicate 192 0, ds3)) (\<lambda>(lineEncoding1, ds4).
              bindE (unpackLineEncoding 0 (replicate 192 0, ds4)) (\<lambda>(lineEncoding2, ds5).
                bindE (decodeLines lineEncoding1 0 (replicate (256 * 192) 0, ds5)) (\<lambda>(layer1, ds6).
                  bindE (decodeLines lineEncoding2 0 (replicate (256 * 192) 0, ds6)) (\<lambda>(layer2, ds7).
                    Inr (if isNewFrame = 0
                         then mergeRows translateX translateY 0 prev [layer1, layer2]
                         else [layer1, layer2], ds7)))))))"

text \<open>
  The part of \<^verbatim>\<open>decodeFrame\<close> after the recursion. The reads go through the byte
  cursor of the parser, from the offset of the frame; the layers read become the
  layer buffers, and the previous layer buffers receive a copy of them.
\<close>

definition ppm_frameLayers ::
  "PpmParser \<Rightarrow> nat \<Rightarrow> byte list list \<Rightarrow> error + byte list list \<times> Cursor" where
  "ppm_frameLayers p frameIndex prev =
     readFrame prev
       (cursor_seek (table_entry (frameOffsets p) frameIndex) 0 \<lparr>view = view p, offset = offset p\<rparr>)"

definition ppm_decodeBody :: "nat \<Rightarrow> PpmParser \<Rightarrow> error + PpmParser" where
  "ppm_decodeBody frameIndex p =
     bindE (ppm_frameLayers p frameIndex (prevLayerBuffers p))
       (\<lambda>(cur, c). Inr (p\<lparr>offset := offset c, layerBuffers := cur, prevLayerBuffers := cur,
                           prevDecodedFrame := Some frameIndex\<rparr>))"

text \<open>
  \<^verbatim>\<open>PpmParser.decodeFrame(frameIndex)\<close>. The condition of the recursion is evaluated
  left to right: \<^verbatim>\<open>isNewFrame\<close> is only called when the frame decoded last is not the
  one before, also for frame 0.
\<close>

function ppm_decodeFrame :: "nat \<Rightarrow> PpmParser \<Rightarrow> error + PpmParser" where
  "ppm_decodeFrame frameIndex p =
     (if \<not> frameIndex < ppm_frameCount p then Inl AssertFailed
      else
        (case (if frameIndex \<noteq> 0 \<and> prevDecodedFrame p = Some (frameIndex - 1) then Inr p
               else
                 (case isNewFrame frameIndex p of
                    Inl e \<Rightarrow> Inl e
                  | Inr (isNew, p1) \<Rightarrow>
                      if isNew = 0 \<and> frameIndex \<noteq> 0
                      then ppm_decodeFrame (frameIndex - 1) p1
                      else Inr p1)) of
           Inl e \<Rightarrow> Inl e
         | Inr p2 \<Rightarrow> ppm_decodeBody frameIndex p2))"
  by pat_completeness auto
termination
  by (relation "measure (\<lambda>(frameIndex, p). frameIndex)") auto

declare ppm_decodeFrame.simps [simp del] unpackLineEncoding.simps [simp del]
  unpackChunk1.simps [simp del] unpackRawLine.simps [simp del] decodeLines.simps [simp del]
  mergeRow.simps [simp del] mergeRows.simps [simp del]

fun ppm_decodeFrames :: "nat list \<Rightarrow> PpmParser \<Rightarrow> error + PpmParser" where
  "ppm_decodeFrames [] p = Inr p"
| "ppm_decodeFrames (frameIndex # rest) p = bindE (ppm_decodeFrame frameIndex p) (ppm_decodeFrames rest)"

text \<open>The state the constructor leaves: cleared buffers and no frame decoded.\<close>

definition ppm_fresh :: "PpmParser \<Rightarrow> bool" where
  "ppm_fresh p =
     (layerBuffers p = replicate 2 (replicate (256 * 192) 0) \<and>
      prevLayerBuffers p = replicate 2 (replicate (256 * 192) 0) \<and>
      prevDecodedFrame p = None)"

text \<open>
  The layers of a frame as its chain of differences defines them: a key frame and
  frame 0 are read over cleared previous layers, any other frame over the layers of
  the frame before it.
\<close>

function ppm_frameContent :: "PpmParser \<Rightarrow> nat \<Rightarrow> error + byte list list" where
  "ppm_frameContent p frameIndex =
     (case isNewFrame frameIndex p of
        Inl e \<Rightarrow> Inl e
      | Inr (isNew, p') \<Rightarrow>
          if isNew \<noteq> 0 \<or> frameIndex = 0
          then map_sum id fst (ppm_frameLayers p frameIndex (replicate 2 (replicate (256 * 192) 0)))
          else (case ppm_frameContent p (frameIndex - 1) of
                  Inl e \<Rightarrow> Inl e
                | Inr prev \<Rightarrow> map_sum id fst (ppm_frameLayers p frameIndex prev)))"
  by pat_completeness auto
termination
  by (relation "measure (\<lambda>(p, frameIndex). frameIndex)") auto

declare ppm_frameContent.simps [simp del]

text \<open>Frame 0 is a key frame: its header can be read and has the top bit set.\<close>

definition ppm_keyFrame :: "nat \<Rightarrow> PpmParser \<Rightarrow> bool" where
  "ppm_keyFrame frameIndex p =
     (case isNewFrame frameIndex p of Inl e \<Rightarrow> False | Inr (isNew, p') \<Rightarrow> isNew \<noteq> 0)"

text \<open>The parsers that calls of \<^verbatim>\<open>decodeFrame\<close> that return lead to, from a given one.\<close>

inductive ppm_reachable :: "PpmParser \<Rightarrow> PpmParser \<Rightarrow> bool" where
  start: "ppm_reachable p p"
| step: "ppm_reachable p q \<Longrightarrow> ppm_decodeFrame frameIndex q = Inr q' \<Longrightarrow> ppm_reachable p q'"

text \<open>
  An example of two frames of 102 bytes each: a header byte, 48 bytes of line types
  for each layer (line 0 of the first layer has type 1, all other lines type 0), the
  line header \<open>0x80000000\<close> and one chunk. Frame 0 is a key frame that sets pixel 0 of
  the first layer; frame 1 is a difference frame that sets pixel 1.
\<close>

definition ppm_example_file :: "byte list" where
  "ppm_example_file =
     [0x80, 0x01] @ replicate 47 0 @ replicate 48 0 @ [0x80, 0x00, 0x00, 0x00, 0x01] @
     [0x00, 0x01] @ replicate 47 0 @ replicate 48 0 @ [0x80, 0x00, 0x00, 0x00, 0x02]"

definition ppm_example :: PpmParser where
  "ppm_example =
     \<lparr>view = ppm_example_file, offset = Num 0, ppm_frameCount = 2, frameOffsets = [0, 102],
      layerBuffers = replicate 2 (replicate (256 * 192) 0),
      prevLayerBuffers = replicate 2 (replicate (256 * 192) 0),
      prevDecodedFrame = None\<rparr>"

text \<open>The same bytes read as a file whose only frame is the difference frame.\<close>

definition ppm_example_diff :: PpmParser where
  "ppm_example_diff = ppm_example\<lparr>ppm_frameCount := 1, frameOffsets := [102]\<rparr>"

text \<open>
  Two parsers over the same file, and a parser whose previous layer buffers hold what
  the chain of differences gives for the frame it decoded last (cleared buffers if it
  has decoded none).
\<close>

definition ppm_sameFile :: "PpmParser \<Rightarrow> PpmParser \<Rightarrow> bool" where
  "ppm_sameFile p q =
     (view q = view p \<and> ppm_frameCount q = ppm_frameCount p \<and> frameOffsets q = frameOffsets p)"

definition ppm_consistent :: "PpmParser \<Rightarrow> PpmParser \<Rightarrow> bool" where
  "ppm_consistent p q =
     (ppm_sameFile p q \<and>
      (case prevDecodedFrame q of
         None \<Rightarrow> prevLayerBuffers q = replicate 2 (replicate (256 * 192) 0)
       | Some k \<Rightarrow> ppm_frameContent p k = Inr (prevLayerBuffers q)))"

section \<open>Results: clipping ratio\<close>

lemma count_clipped_none:
  "\<forall>s \<in> set src. s = 0 \<Longrightarrow> count_clipped src k = k"
  by (induction src arbitrary: k) auto

lemma count_clipped_all:
  "\<forall>s \<in> set src. s \<le> - 32768 \<or> s \<ge> 32767 \<Longrightarrow> count_clipped src k = k + length src"
  by (induction src arbitrary: k) auto

text \<open>
  C6. On a non-empty buffer of zeros the clipping ratio is 0; on a non-empty buffer
  whose samples are all at or beyond a signed 16-bit bound it is 1.
\<close>

theorem C6_clipping_ratio:
  "src \<noteq> [] \<Longrightarrow>
     ((\<forall>s \<in> set src. s = 0) \<longrightarrow> pcmGetClippingRatio src = 0) \<and>
     ((\<forall>s \<in> set src. s \<le> - 32768 \<or> s \<ge> 32767) \<longrightarrow> pcmGetClippingRatio src = 1)"
  by (simp add: pcmGetClippingRatio_def count_clipped_none count_clipped_all)

theorem C6_clipping_ratio_witness:
  "[0, 0, 0] \<noteq> ([] :: int list) \<and> pcmGetClippingRatio [0, 0, 0] = 0 \<and>
   [32767, - 32768] \<noteq> ([] :: int list) \<and> pcmGetClippingRatio [32767, - 32768] = 1"
  using C6_clipping_ratio [of "[0, 0, 0]"] C6_clipping_ratio [of "[32767, - 32768]"]
  by simp

section \<open>Results: overlay mixing\<close>

text \<open>
  C10. The claim is that every store of the mixer targets an index below the length of
  the destination. With a two-sample clip mixed at offset 2 into a three-sample
  destination the loop issues a store at index 3, the length of the destination: the
  exit test uses \<open>>\<close> where \<open>\<ge>\<close> is needed. Both parsers share the loop.
\<close>

theorem C10_store_at_length:
  "snd (kwz_pcmAudioMix [1000, 1000] [0, 0, 0] 2) = [2, 3] \<and>
   snd (ppm_pcmAudioMix [1000, 1000] [0, 0, 0] 2) = [2, 3] \<and>
   int (length [0, 0, 0 :: int]) = 3"
  by (simp add: kwz_pcmAudioMix_def ppm_pcmAudioMix_def mix_full_def mix_half_def
      toInt16_def js_trunc_def clamp_def Let_def)

section \<open>Results: byte cursor\<close>



text \<open>
  On integer pointers the cursor is the \<open>DataStream\<close> of the integer model: its reads and
  seeks are those of the cursor.
\<close>

lemma read_typed_as_cursor:
  "cursor_read w sg le (as_cursor ds) =
     map_sum id (\<lambda>(v, ds'). (v, as_cursor ds')) (read_typed w sg le ds)"
  by (simp add: cursor_read_def read_typed_def as_cursor_def to_index_def js_add_def
      split: sum.splits)

lemma seek_as_cursor:
  "cursor_seek (Num off) whence (as_cursor ds) = as_cursor (seek off whence ds)"
  by (simp add: cursor_seek_def cursor_seek_target_def seek_def as_cursor_def js_add_def
      byteLength_def)




section \<open>Results: format dispatch\<close>

lemma magic_bytes_of:
  fixes a b c d :: byte
  defines "w \<equiv> (push_bit 24 (ucast a) OR push_bit 16 (ucast b) OR push_bit 8 (ucast c) OR ucast d :: 32 word)"
  shows "ucast (drop_bit 24 w) = a" "ucast (drop_bit 16 w) = b" "ucast (drop_bit 8 w) = c" "ucast w = d"
  unfolding w_def
  by (rule bit_word_eqI; auto simp: bit_simps dest: bit_imp_le_length)+

lemma source_magic_PARA:
  fixes a b c d :: byte
  shows "(push_bit 24 (ucast a) OR push_bit 16 (ucast b) OR push_bit 8 (ucast c) OR ucast d = (0x50415241 :: 32 word))
     \<longleftrightarrow> a = 0x50 \<and> b = 0x41 \<and> c = 0x52 \<and> d = 0x41"
proof
  assume h: "push_bit 24 (ucast a) OR push_bit 16 (ucast b) OR push_bit 8 (ucast c) OR ucast d = (0x50415241 :: 32 word)"
  show "a = 0x50 \<and> b = 0x41 \<and> c = 0x52 \<and> d = 0x41"
    using magic_bytes_of [of a b c d] unfolding h by simp
next
  assume "a = 0x50 \<and> b = 0x41 \<and> c = 0x52 \<and> d = 0x41"
  then show "push_bit 24 (ucast a) OR push_bit 16 (ucast b) OR push_bit 8 (ucast c) OR ucast d = (0x50415241 :: 32 word)"
    by simp
qed

lemma mask_high_bytes:
  fixes a b c d :: byte
  shows "(push_bit 24 (ucast a) OR push_bit 16 (ucast b) OR push_bit 8 (ucast c) OR ucast d) AND (0xFFFFFF00 :: 32 word)
     = push_bit 24 (ucast a) OR push_bit 16 (ucast b) OR push_bit 8 (ucast c) OR ucast (0 :: byte)"
proof -
  have m: "(0xFFFFFF00 :: 32 word) = NOT (mask 8)" by (simp add: mask_eq_exp_minus_1)
  show ?thesis unfolding m
    by (rule bit_word_eqI) (auto simp: bit_simps dest: bit_imp_le_length)
qed

lemma source_magic_KFH:
  fixes a b c d :: byte
  shows "((push_bit 24 (ucast a) OR push_bit 16 (ucast b) OR push_bit 8 (ucast c) OR ucast d) AND 0xFFFFFF00 = (0x4B464800 :: 32 word))
     \<longleftrightarrow> a = 0x4B \<and> b = 0x46 \<and> c = 0x48"
proof
  assume "(push_bit 24 (ucast a) OR push_bit 16 (ucast b) OR push_bit 8 (ucast c) OR ucast d) AND 0xFFFFFF00 = (0x4B464800 :: 32 word)"
  then have h: "push_bit 24 (ucast a) OR push_bit 16 (ucast b) OR push_bit 8 (ucast c) OR ucast (0 :: byte) = (0x4B464800 :: 32 word)"
    by (simp only: mask_high_bytes)
  show "a = 0x4B \<and> b = 0x46 \<and> c = 0x48"
    using magic_bytes_of [of a b c 0] unfolding h by simp
next
  assume "a = 0x4B \<and> b = 0x46 \<and> c = 0x48"
  then show "(push_bit 24 (ucast a) OR push_bit 16 (ucast b) OR push_bit 8 (ucast c) OR ucast d) AND 0xFFFFFF00 = (0x4B464800 :: 32 word)"
    by (simp only: mask_high_bytes) simp
qed

lemma take4_eq:
  "take 4 bs = [a, b, c, d] \<longleftrightarrow> length bs \<ge> 4 \<and> bs ! 0 = a \<and> bs ! 1 = b \<and> bs ! 2 = c \<and> bs ! 3 = d"
  by (cases bs; cases "tl bs"; cases "tl (tl bs)"; cases "tl (tl (tl bs))") auto

lemma take3_eq:
  "take 3 bs = [a, b, c] \<longleftrightarrow> length bs \<ge> 3 \<and> bs ! 0 = a \<and> bs ! 1 = b \<and> bs ! 2 = c"
  by (cases bs; cases "tl bs"; cases "tl (tl bs)") auto

text \<open>
  C9. The dispatch is decided by the first four bytes alone: the format A parser is
  constructed when they spell \<open>PARA\<close>, the format B parser when the first three spell
  \<open>KFH\<close>, and in every other case the promise is rejected and no parser is constructed.
\<close>

theorem C9_format_sniffing:
  "parseSource arrayBuffer =
     (if take 4 arrayBuffer = [0x50, 0x41, 0x52, 0x41] then NewPpmParser
      else if take 3 arrayBuffer = [0x4B, 0x46, 0x48] then NewKwzParser
      else Reject) \<and>
   parseSource arrayBuffer = parseSource (take 4 arrayBuffer)"
proof -
  have eq: "parseSource bs =
     (if take 4 bs = [0x50, 0x41, 0x52, 0x41] then NewPpmParser
      else if take 3 bs = [0x4B, 0x46, 0x48] then NewKwzParser
      else Reject)" for bs
    unfolding parseSource_def Let_def source_magic_def source_magic_PARA source_magic_KFH
      take4_eq take3_eq
    by (auto simp: magic_byte_def)
  have "take 3 (take 4 arrayBuffer) = take 3 arrayBuffer" by simp
  then show ?thesis
    by (simp add: eq)
qed

section \<open>Results: ADPCM decoding\<close>

lemma toInt16_id: "- 32768 \<le> v \<Longrightarrow> v \<le> 32767 \<Longrightarrow> toInt16 v = v"
  by (simp add: toInt16_def)

lemma clamp_range: "l \<le> h \<Longrightarrow> l \<le> clamp n l h \<and> clamp n l h \<le> h"
  by (auto simp: clamp_def)

lemma ppm_store_clamped: "toInt16 (clamp p (- 32768) 32767) = clamp p (- 32768) 32767"
  using clamp_range [of "- 32768" 32767 p] by (simp add: toInt16_id)

lemma kwz_store_clamped: "toInt16 (clamp p (- 2048) 2047 * 16) = clamp p (- 2048) 2047 * 16"
  using clamp_range [of "- 2048" 2047 p] by (simp add: toInt16_id)

lemma ppm_loop_append:
  "ppm_decode_loop src srcPtr lowNibble stepIndex predictor dst =
   dst @ ppm_decode_loop src srcPtr lowNibble stepIndex predictor []"
proof (induction "2 * (length src - srcPtr) + (if lowNibble then 1 else 0 :: nat)"
    arbitrary: srcPtr lowNibble stepIndex predictor dst rule: less_induct)
  case less
  show ?case
  proof (cases "srcPtr < length src")
    case False
    then show ?thesis by (simp add: ppm_decode_loop.simps [of src srcPtr])
  next
    case True
    define srcPtr' where "srcPtr' = (if lowNibble then srcPtr else srcPtr + 1)"
    have m: "2 * (length src - srcPtr') + (if \<not> lowNibble then 1 else 0 :: nat)
        < 2 * (length src - srcPtr) + (if lowNibble then 1 else 0)"
      using True by (auto simp: srcPtr'_def)
    have step: "ppm_decode_loop src srcPtr lowNibble stepIndex predictor d =
        (let sample = (if lowNibble then uint (src ! srcPtr) AND 0xF
                      else drop_bit 4 (uint (src ! srcPtr)));
             predictor' = clamp (predictor + diff_4bit (ADPCM_STEP_TABLE ! nat stepIndex) sample)
                            (- 32768) 32767
         in ppm_decode_loop src srcPtr' (\<not> lowNibble)
              (clamp (stepIndex + ADPCM_INDEX_TABLE_4BIT ! nat sample) 0 88) predictor'
              (d @ [toInt16 predictor']))" for d
      by (subst ppm_decode_loop.simps) (simp only: True if_True Let_def srcPtr'_def)
    show ?thesis
      unfolding step [of dst] step [of "[]"] Let_def
      by (subst less.hyps [OF m], subst (2) less.hyps [OF m]) simp
  qed
qed

lemma ppm_loop_round:
  assumes "srcPtr < length src"
  shows "ppm_decode_loop src srcPtr lowNibble stepIndex predictor [] =
     (let sample = (if lowNibble then uint (src ! srcPtr) AND 0xF else drop_bit 4 (uint (src ! srcPtr)));
          predictor' = clamp (predictor + diff_4bit (ADPCM_STEP_TABLE ! nat stepIndex) sample) (- 32768) 32767
      in predictor' #
         ppm_decode_loop src (if lowNibble then srcPtr else srcPtr + 1) (\<not> lowNibble)
           (clamp (stepIndex + ADPCM_INDEX_TABLE_4BIT ! nat sample) 0 88) predictor' [])"
  apply (subst ppm_decode_loop.simps)
  apply (simp only: assms if_True Let_def ppm_store_clamped)
  apply (subst ppm_loop_append)
  apply simp
  done

lemma kwz_byte_append:
  "kwz_decode_byte currByte currBit (predictor, stepIndex, out) =
   (case kwz_decode_byte currByte currBit (predictor, stepIndex, []) of
      (p, s, rest) \<Rightarrow> (p, s, out @ rest))"
proof (induction "nat (8 - currBit)" arbitrary: currByte currBit predictor stepIndex out
    rule: less_induct)
  case less
  show ?case
  proof (cases "currBit < 8")
    case False
    then show ?thesis by (simp add: kwz_decode_byte.simps [of currByte currBit])
  next
    case lt: True
    define two where "two = (stepIndex < 18 \<or> currBit > 4)"
    define w :: nat where "w = (if two then 2 else 4)"
    have m: "nat (8 - (currBit + int w)) < nat (8 - currBit)"
      using lt by (auto simp: w_def)
    have step: "kwz_decode_byte currByte currBit (predictor, stepIndex, d) =
        (let sample = (if two then currByte AND 0x3 else currByte AND 0xF);
             step = ADPCM_STEP_TABLE ! nat stepIndex;
             predictor' = clamp (predictor + (if two then diff_2bit step sample else diff_4bit step sample))
                            (- 2048) 2047;
             stepIndex' = clamp (stepIndex + (if two then ADPCM_INDEX_TABLE_2BIT ! nat sample
                                              else ADPCM_INDEX_TABLE_4BIT ! nat sample)) 0 79
         in kwz_decode_byte (drop_bit w currByte) (currBit + int w)
              (predictor', stepIndex', d @ [toInt16 (predictor' * 16)]))" for d
      by (subst kwz_decode_byte.simps) (simp add: lt Let_def two_def w_def)
    show ?thesis
      unfolding step [of out] step [of "[]"] Let_def
      by (subst less.hyps [OF m], subst (2) less.hyps [OF m]) (simp split: prod.splits)
  qed
qed

lemma kwz_byte_round:
  assumes "currBit < 8"
  shows "snd (snd (kwz_decode_byte currByte currBit (predictor, stepIndex, []))) =
     (let two = (stepIndex < 18 \<or> currBit > 4);
          sample = (if two then currByte AND 0x3 else currByte AND 0xF);
          step = ADPCM_STEP_TABLE ! nat stepIndex;
          predictor' = clamp (predictor + (if two then diff_2bit step sample else diff_4bit step sample))
                         (- 2048) 2047;
          stepIndex' = clamp (stepIndex + (if two then ADPCM_INDEX_TABLE_2BIT ! nat sample
                                           else ADPCM_INDEX_TABLE_4BIT ! nat sample)) 0 79
      in predictor' * 16 #
         snd (snd (kwz_decode_byte (drop_bit (if two then 2 else 4) currByte)
                     (currBit + (if two then 2 else 4)) (predictor', stepIndex', []))))"
proof (cases "stepIndex < 18 \<or> currBit > 4")
  case True
  show ?thesis
    apply (subst kwz_decode_byte.simps)
    apply (simp only: assms True if_True Let_def kwz_store_clamped)
    apply (subst kwz_byte_append)
    apply (simp split: prod.splits)
    done
next
  case False
  show ?thesis
    apply (subst kwz_decode_byte.simps)
    apply (simp only: assms False if_True if_False Let_def kwz_store_clamped)
    apply (subst kwz_byte_append)
    apply (simp split: prod.splits)
    done
qed

lemma ppm_loop_range:
  "list_all pcm_ok dst \<Longrightarrow> list_all pcm_ok (ppm_decode_loop src srcPtr lowNibble stepIndex predictor dst)"
proof (induction src srcPtr lowNibble stepIndex predictor dst rule: ppm_decode_loop.induct)
  case (1 src srcPtr lowNibble stepIndex predictor dst)
  show ?case
  proof (cases "srcPtr < length src")
    case False
    then show ?thesis using "1.prems" by (simp add: ppm_decode_loop.simps [of src srcPtr])
  next
    case True
    have ok: "pcm_ok (toInt16 (clamp p (- 32768) 32767))" for p :: int
      using clamp_range [of "- 32768" 32767 p] by (simp add: toInt16_id pcm_ok_def)
    show ?thesis
      apply (subst ppm_decode_loop.simps)
      apply (simp only: True if_True Let_def)
      apply (rule "1.IH" [OF True refl refl refl refl refl])
      using "1.prems" ok by simp
  qed
qed

lemma kwz_emit_ok: "kwz_ok (toInt16 (clamp p (- 2048) 2047 * 16))"
proof -
  have "- 2048 \<le> clamp p (- 2048) 2047 \<and> clamp p (- 2048) 2047 \<le> 2047"
    by (rule clamp_range) simp
  then show ?thesis by (simp add: toInt16_id kwz_ok_def)
qed

lemma kwz_byte_range:
  "list_all kwz_ok (snd (snd st)) \<Longrightarrow> list_all kwz_ok (snd (snd (kwz_decode_byte currByte currBit st)))"
proof (induction currByte currBit st rule: kwz_decode_byte.induct)
  case (1 currByte currBit predictor stepIndex out)
  show ?case
  proof (cases "currBit < 8")
    case False
    then show ?thesis using "1.prems" by (simp add: kwz_decode_byte.simps [of currByte currBit])
  next
    case lt: True
    show ?thesis
    proof (cases "stepIndex < 18 \<or> currBit > 4")
      case True
      show ?thesis
        apply (subst kwz_decode_byte.simps)
        apply (simp only: lt True if_True Let_def)
        apply (rule "1.IH"(1) [OF lt True refl refl refl refl refl refl])
        using "1.prems" kwz_emit_ok by simp
    next
      case False
      show ?thesis
        apply (subst kwz_decode_byte.simps)
        apply (simp only: lt False if_True if_False Let_def)
        apply (rule "1.IH"(2) [OF lt False refl refl refl refl refl refl])
        using "1.prems" kwz_emit_ok by simp
    qed
  qed
qed

lemma kwz_bytes_range:
  "list_all kwz_ok (snd (snd st)) \<Longrightarrow> list_all kwz_ok (snd (snd (kwz_decode_bytes adpcm st)))"
  by (induction adpcm arbitrary: st) (simp_all add: kwz_byte_range)

lemma list_all_take: "list_all P xs \<Longrightarrow> list_all P (take n xs)"
  by (auto simp: list_all_iff dest: in_set_takeD)

text \<open>
  C5. Every sample either decoder emits lies in the signed 16-bit range, and it is the
  clamped predictor itself that is emitted, unchanged by the 16-bit store. Format A:
  from any state of the loop with input left, the samples emitted are the new
  predictor, which is the old one plus the difference of the nibble clamped to
  \<open>- 32768 .. 32767\<close>, followed by the samples emitted from the next state, which
  carries that predictor. Format B: from any state of the loop over the bits of a
  byte, the samples emitted are 16 times the new predictor, which is the old one plus
  the difference of the 2-bit or 4-bit sample clamped to \<open>- 2048 .. 2047\<close>, followed by
  the samples emitted from the next state.
\<close>

theorem C5_pcm_in_range:
  "(\<forall>s \<in> set (ppm_decodeAudioTrack src). - 32768 \<le> s \<and> s \<le> 32767) \<and>
   (\<forall>s \<in> set (kwz_decodeAudioTrack cfg adpcm).
      - 32768 \<le> s \<and> s \<le> 32767 \<and> (\<exists>p. - 2048 \<le> p \<and> p \<le> 2047 \<and> s = p * 16)) \<and>
   (srcPtr < length src \<longrightarrow>
      ppm_decode_loop src srcPtr lowNibble stepIndex predictor [] =
        (let sample = (if lowNibble then uint (src ! srcPtr) AND 0xF
                       else drop_bit 4 (uint (src ! srcPtr)));
             predictor' = clamp (predictor + diff_4bit (ADPCM_STEP_TABLE ! nat stepIndex) sample)
                            (- 32768) 32767
         in predictor' #
            ppm_decode_loop src (if lowNibble then srcPtr else srcPtr + 1) (\<not> lowNibble)
              (clamp (stepIndex + ADPCM_INDEX_TABLE_4BIT ! nat sample) 0 88) predictor' [])) \<and>
   (currBit < 8 \<longrightarrow>
      snd (snd (kwz_decode_byte currByte currBit (predictorB, stepIndexB, []))) =
        (let two = (stepIndexB < 18 \<or> currBit > 4);
             sample = (if two then currByte AND 0x3 else currByte AND 0xF);
             step = ADPCM_STEP_TABLE ! nat stepIndexB;
             predictor' = clamp (predictorB + (if two then diff_2bit step sample
                                               else diff_4bit step sample)) (- 2048) 2047;
             stepIndex' = clamp (stepIndexB + (if two then ADPCM_INDEX_TABLE_2BIT ! nat sample
                                               else ADPCM_INDEX_TABLE_4BIT ! nat sample)) 0 79
         in predictor' * 16 #
            snd (snd (kwz_decode_byte (drop_bit (if two then 2 else 4) currByte)
                        (currBit + (if two then 2 else 4)) (predictor', stepIndex', [])))))"
proof -
  have a: "list_all pcm_ok (ppm_decodeAudioTrack src)"
    unfolding ppm_decodeAudioTrack_def by (rule ppm_loop_range) simp
  have b: "list_all kwz_ok (kwz_decodeAudioTrack cfg adpcm)"
    unfolding kwz_decodeAudioTrack_def Let_def
    by (rule list_all_take, rule kwz_bytes_range) simp
  have c: "kwz_ok s \<Longrightarrow> - 32768 \<le> s \<and> s \<le> 32767 \<and> (\<exists>p. - 2048 \<le> p \<and> p \<le> 2047 \<and> s = p * 16)" for s
    unfolding kwz_ok_def by (elim conjE dvdE) auto
  have ab: "(\<forall>s \<in> set (ppm_decodeAudioTrack src). - 32768 \<le> s \<and> s \<le> 32767) \<and>
   (\<forall>s \<in> set (kwz_decodeAudioTrack cfg adpcm).
      - 32768 \<le> s \<and> s \<le> 32767 \<and> (\<exists>p. - 2048 \<le> p \<and> p \<le> 2047 \<and> s = p * 16))"
    using a b c by (auto simp: list_all_iff pcm_ok_def)
  show ?thesis
    using ab ppm_loop_round [of srcPtr src lowNibble stepIndex predictor]
      kwz_byte_round [of currBit currByte predictorB stepIndexB]
    by blast
qed

lemma ppm_decode_example: "ppm_decodeAudioTrack [0x07] = [11, 13]"
  by code_simp

lemma kwz_decode_bytes_example:
  "snd (snd (kwz_decode_bytes [0x07] (0, 40, []))) = [10096, 11536]"
  by code_simp

lemma kwz_decode_example:
  "kwz_decodeAudioTrack \<lparr>quickMeta = False, dsiLibraryNote = False, cleanerAudio = False\<rparr> [0x07]
   = [10096, 11536]"
  by (simp del: kwz_decode_bytes.simps add: kwz_decodeAudioTrack_def kwz_decode_bytes_example)

theorem C5_pcm_in_range_witness:
  "ppm_decodeAudioTrack [0x07] = [11, 13] \<and>
   kwz_decodeAudioTrack \<lparr>quickMeta = False, dsiLibraryNote = False, cleanerAudio = False\<rparr> [0x07]
     = [10096, 11536] \<and>
   (\<exists>p. - 2048 \<le> p \<and> p \<le> 2047 \<and> (10096 :: int) = p * 16) \<and>
   ppm_decode_loop [0x07] 0 True 88 32760 [] = 32767 # ppm_decode_loop [0x07] 0 False 88 32767 [] \<and>
   snd (snd (kwz_decode_byte 0x07 0 (2047, 79, []))) =
     32752 # snd (snd (kwz_decode_byte 0 4 (2047, 79, [])))"
  using C5_pcm_in_range [where src = "[0x07]"
      and cfg = "\<lparr>quickMeta = False, dsiLibraryNote = False, cleanerAudio = False\<rparr>"
      and adpcm = "[0x07]" and srcPtr = 0 and lowNibble = True and stepIndex = 88
      and predictor = 32760 and currBit = 0 and currByte = "0x07" and stepIndexB = 79
      and predictorB = 2047]
  unfolding ppm_decode_example kwz_decode_example
  by (simp add: Let_def clamp_def diff_4bit_def diff_2bit_def ADPCM_STEP_TABLE_def
      ADPCM_INDEX_TABLE_4BIT_def ADPCM_INDEX_TABLE_2BIT_def)

section \<open>Results: bit cursor\<close>

lemma bitmask_eq: "0 \<le> n \<Longrightarrow> n < 16 \<Longrightarrow> bitmask n = mask (nat n)"
proof -
  assume a: "0 \<le> n" "n < 16"
  then have "nat n < 16" by simp
  then have "BITMASKS ! nat n = push_bit (nat n) 1 - 1"
    unfolding BITMASKS_def by (simp del: upt_Suc)
  then show ?thesis using a by (simp add: bitmask_def mask_eq_exp_minus_1 push_bit_eq_mult)
qed

lemma consume_bits:
  fixes bv :: "32 word"
  assumes bv: "\<And>i. bit bv i \<longleftrightarrow> i < P \<and> G i"
    and P: "P \<le> 31" and n: "n \<le> P"
  shows "bit (sint (bv AND mask n)) i \<longleftrightarrow> i < n \<and> G i"
    and "bit (signed_drop_bit n bv) i \<longleftrightarrow> i < P - n \<and> G (i + n)"
proof -
  have top: "\<not> bit bv 31" using P by (simp add: bv)
  have m: "bit (bv AND mask n) k \<longleftrightarrow> k < n \<and> G k" for k
  proof -
    have "bit (bv AND mask n) k \<longleftrightarrow> bit bv k \<and> k < n"
      using bit_imp_le_length [of bv k] by (auto simp add: bit_and_iff bit_mask_iff)
    also have "\<dots> \<longleftrightarrow> (k < P \<and> G k) \<and> k < n" by (simp only: bv)
    also have "\<dots> \<longleftrightarrow> k < n \<and> G k" using n by auto
    finally show ?thesis .
  qed
  have "bit (sint (bv AND mask n)) i \<longleftrightarrow> bit (bv AND mask n) i"
    using m [of 31] top P n by (simp add: bit_sint_iff)
  then show "bit (sint (bv AND mask n)) i \<longleftrightarrow> i < n \<and> G i"
    using m by simp
  show "bit (signed_drop_bit n bv) i \<longleftrightarrow> i < P - n \<and> G (i + n)"
  proof (cases "32 - n \<le> i \<and> i < 32")
    case True
    then have "bit (signed_drop_bit n bv) i \<longleftrightarrow> bit bv 31"
      by (simp add: bit_signed_drop_bit_iff)
    moreover have "\<not> i < P - n" using True P n by linarith
    ultimately show ?thesis using top by simp
  next
    case False
    then have "bit (signed_drop_bit n bv) i \<longleftrightarrow> bit bv (n + i)"
      by (auto simp add: bit_signed_drop_bit_iff)
    also have "\<dots> \<longleftrightarrow> n + i < P \<and> G (n + i)" by (simp only: bv)
    also have "\<dots> \<longleftrightarrow> i < P - n \<and> G (i + n)" by (auto simp: add.commute)
    finally show ?thesis .
  qed
qed

lemma word_of_le16:
  fixes b0 b1 :: byte
  shows "(word_of_int (uint b0 + 256 * uint b1) :: 32 word) = ucast b0 OR push_bit 8 (ucast b1)"
proof -
  have "(word_of_int (uint b0 + 256 * uint b1) :: 32 word) = ucast b0 + push_bit 8 (ucast b1)"
    by (simp add: push_bit_eq_mult)
  also have "\<dots> = ucast b0 OR push_bit 8 (ucast b1)"
    by (rule disjunctive_add_eq_or, rule bit_word_eqI)
       (auto simp: bit_simps dest: bit_imp_le_length)
  finally show ?thesis .
qed

lemma bit_word_of_le16:
  fixes b0 b1 :: byte
  shows "bit (word_of_int (uint b0 + 256 * uint b1) :: 32 word) j
    \<longleftrightarrow> j < 16 \<and> (if j < 8 then bit b0 j else bit b1 (j - 8))"
  unfolding word_of_le16
  by (auto simp: bit_simps dest: bit_imp_le_length)

lemma file_bit_word:
  assumes "j < 16"
  shows "file_bit buf (8 * q + j) = (if j < 8 then bit (buf ! q) j else bit (buf ! (q + 1)) (j - 8))"
proof (cases "j < 8")
  case True
  then have "(8 * q + j) div 8 = q" "(8 * q + j) mod 8 = j" by simp_all
  then show ?thesis using True by (simp add: file_bit_def)
next
  case False
  then obtain k where k: "j = 8 + k" "k < 8" using assms by (metis add_diff_inverse_nat less_diff_conv2 linorder_not_less numeral_Bit0 add.commute)
  have "(8 * q + j) div 8 = q + 1" "(8 * q + j) mod 8 = k" using k by simp_all
  then show ?thesis using False k by (simp add: file_bit_def)
qed


lemma readUint16_le:
  assumes "0 \<le> pointer p" "pointer p + 2 \<le> byteLength p"
  shows "readUint16 True p =
     Inr (uint (buffer p ! nat (pointer p)) + 256 * uint (buffer p ! (nat (pointer p) + 1)),
          p\<lparr>pointer := pointer p + 2\<rparr>)"
proof -
  have len: "nat (pointer p) + 2 \<le> length (buffer p)"
    using assms by (simp add: byteLength_def)
  then have "take 2 (drop (nat (pointer p)) (buffer p))
      = [buffer p ! nat (pointer p), buffer p ! (nat (pointer p) + 1)]"
    by (simp add: take_Suc_conv_app_nth numeral_2_eq_2)
  then show ?thesis
    using assms
    by (simp add: readUint16_def read_typed_def view_bytes_def byteLength_def bytes_value_def)
qed

lemma refill_bits:
  fixes bv :: "32 word" and b0 b1 :: byte
  assumes bv: "\<And>i. bit bv i \<longleftrightarrow> i < P \<and> file_bit buf (pos + i)"
    and P: "P \<le> 16" and al: "pos + P = 8 * q"
    and b: "b0 = buf ! q" "b1 = buf ! (q + 1)"
  shows "bit (bv OR push_bit P (word_of_int (uint b0 + 256 * uint b1))) i
     \<longleftrightarrow> i < P + 16 \<and> file_bit buf (pos + i)"
proof (cases "i < P")
  case True
  then show ?thesis
    by (simp add: bit_or_iff bit_push_bit_iff bv)
next
  case False
  then obtain j where j: "i = P + j" by (metis le_add_diff_inverse linorder_not_less)
  have "bit (bv OR push_bit P (word_of_int (uint b0 + 256 * uint b1))) i
     \<longleftrightarrow> i < 32 \<and> bit (word_of_int (uint b0 + 256 * uint b1) :: 32 word) j"
    using False j by (simp add: bit_or_iff bit_push_bit_iff bv)
  also have "\<dots> \<longleftrightarrow> i < 32 \<and> (j < 16 \<and> (if j < 8 then bit b0 j else bit b1 (j - 8)))"
    by (simp only: bit_word_of_le16)
  also have "\<dots> \<longleftrightarrow> j < 16 \<and> (if j < 8 then bit b0 j else bit b1 (j - 8))"
    using P j by auto
  also have "\<dots> \<longleftrightarrow> j < 16 \<and> file_bit buf (8 * q + j)"
    using file_bit_word [of j buf q] b by auto
  also have "\<dots> \<longleftrightarrow> i < P + 16 \<and> file_bit buf (pos + i)"
    using j al by (simp add: add.assoc [symmetric])
  finally show ?thesis .
qed


lemma readBits_step:
  assumes ok: "bits_ok p" and n: "1 \<le> n" "n \<le> 15"
    and avail: "bitIndex p + n > 16 \<Longrightarrow> pointer p + 2 \<le> byteLength p"
  shows "\<exists>v p'. readBits n p = Inr (v, p') \<and>
      (\<forall>i. bit v i \<longleftrightarrow> int i < n \<and> file_bit (buffer p) (nat (stream_pos p) + i)) \<and>
      bits_ok p' \<and> stream_pos p' = stream_pos p + n \<and>
      pointer p' = (if bitIndex p + n > 16 then pointer p + 2 else pointer p) \<and>
      p' = p\<lparr>pointer := pointer p', bitValue := bitValue p', bitIndex := bitIndex p'\<rparr>"
proof -
  define P where "P = nat (pending_bits p)"
  define pos where "pos = nat (stream_pos p)"
  define q where "q = nat (pointer p)"
  have bi: "0 \<le> bitIndex p" "bitIndex p \<le> 16" and sp: "0 \<le> stream_pos p"
    and pl: "pointer p \<le> byteLength p"
    using ok by (simp_all add: bits_ok_def)
  have Pint: "int P = 16 - bitIndex p" using bi by (simp add: P_def pending_bits_def)
  have posint: "int pos = stream_pos p" using sp by (simp add: pos_def)
  have ptr: "0 \<le> pointer p" using sp bi by (simp add: stream_pos_def pending_bits_def)
  have al: "pos + P = 8 * q"
    using ptr Pint posint by (simp add: q_def stream_pos_def pending_bits_def nat_eq_iff)
  have bv: "bit (bitValue p) i \<longleftrightarrow> i < P \<and> file_bit (buffer p) (pos + i)" for i
  proof -
    have "int i < pending_bits p \<longleftrightarrow> i < P" unfolding pending_bits_def using Pint by linarith
    moreover have "bit (bitValue p) i \<longleftrightarrow>
        int i < pending_bits p \<and> file_bit (buffer p) (nat (stream_pos p) + i)"
      using ok by (simp add: bits_ok_def)
    ultimately show ?thesis by (simp add: pos_def)
  qed
  have mk: "bitmask n = mask (nat n)" using n by (simp add: bitmask_eq)
  have sar: "js_sar w n = signed_drop_bit (nat n) w" for w
  proof -
    have "n mod 32 = n" using n by simp
    then show ?thesis by (simp add: js_sar_def)
  qed
  show ?thesis
  proof (cases "bitIndex p + n > 16")
    case False
    then have nP: "nat n \<le> P" using Pint n by linarith
    let ?p' = "p\<lparr>bitValue := js_sar (bitValue p) n, bitIndex := bitIndex p + n\<rparr>"
    let ?v = "sint (bitValue p AND bitmask n)"
    have r: "readBits n p = Inr (?v, ?p')"
      using False by (simp add: readBits_def)
    have P31: "P \<le> 31" using Pint bi by linarith
    have lt: "int i < n \<longleftrightarrow> i < nat n" for i using n by linarith
    have v: "bit ?v i \<longleftrightarrow> int i < n \<and> file_bit (buffer p) (pos + i)" for i
      unfolding mk lt
      by (rule consume_bits(1) [where G = "\<lambda>i. file_bit (buffer p) (pos + i)" and P = P, OF bv P31 nP])
    have "bit (signed_drop_bit (nat n) (bitValue p)) i \<longleftrightarrow> i < P - nat n \<and> file_bit (buffer p) (pos + (i + nat n))" for i
      by (rule consume_bits(2) [where G = "\<lambda>i. file_bit (buffer p) (pos + i)" and P = P, OF bv P31 nP])
    then have b': "bit (js_sar (bitValue p) n) i \<longleftrightarrow> i < P - nat n \<and> file_bit (buffer p) (pos + nat n + i)" for i
      by (simp add: sar ac_simps)
    have pe: "pending_bits ?p' = int (P - nat n)"
      using Pint nP n by (simp add: pending_bits_def)
    have sp': "stream_pos ?p' = stream_pos p + n"
      by (simp add: stream_pos_def pending_bits_def)
    have np: "nat (stream_pos p + n) = pos + nat n"
      using sp n by (simp add: pos_def nat_add_distrib)
    have ok': "bits_ok ?p'"
      unfolding bits_ok_def pe sp' np
      using False bi sp pl n by (simp add: b' byteLength_def)
    show ?thesis
      using r ok' sp' False by (auto simp add: v pos_def)
  next
    case True
    then have av: "pointer p + 2 \<le> byteLength p" by (rule avail)
    define bv1 :: "32 word" where
      "bv1 = bitValue p OR push_bit P (word_of_int (uint (buffer p ! q) + 256 * uint (buffer p ! (q + 1))))"
    define bv2 where "bv2 = js_sar bv1 n"
    let ?p' = "p\<lparr>pointer := pointer p + 2, bitValue := bv2, bitIndex := bitIndex p - 16 + n\<rparr>"
    let ?v = "sint (bv1 AND bitmask n)"
    have shl: "js_shl w (16 - bitIndex p) = push_bit P w" for w
    proof -
      have "(16 - bitIndex p) mod 32 = 16 - bitIndex p" using bi by simp
      then show ?thesis by (simp add: js_shl_def P_def pending_bits_def)
    qed
    have r: "readBits n p = Inr (?v, ?p')"
      unfolding bv2_def bv1_def
      using True by (simp add: readBits_def readUint16_le [OF ptr av] shl q_def)
    have P16: "P \<le> 16" using Pint bi by linarith
    have bv1: "bit bv1 i \<longleftrightarrow> i < P + 16 \<and> file_bit (buffer p) (pos + i)" for i
      unfolding bv1_def by (rule refill_bits [OF bv P16 al refl refl])
    have nP: "nat n \<le> P + 16" "P + 16 \<le> 31" using n Pint True by linarith+
    have lt: "int i < n \<longleftrightarrow> i < nat n" for i using n by linarith
    have v: "bit ?v i \<longleftrightarrow> int i < n \<and> file_bit (buffer p) (pos + i)" for i
      unfolding mk lt
      by (rule consume_bits(1) [where G = "\<lambda>i. file_bit (buffer p) (pos + i)" and P = "P + 16", OF bv1 nP(2) nP(1)])
    have "bit (signed_drop_bit (nat n) bv1) i \<longleftrightarrow> i < P + 16 - nat n \<and> file_bit (buffer p) (pos + (i + nat n))" for i
      by (rule consume_bits(2) [where G = "\<lambda>i. file_bit (buffer p) (pos + i)" and P = "P + 16", OF bv1 nP(2) nP(1)])
    then have b': "bit bv2 i \<longleftrightarrow> i < P + 16 - nat n \<and> file_bit (buffer p) (pos + nat n + i)" for i
      unfolding bv2_def by (simp add: sar ac_simps)
    have pe: "pending_bits ?p' = int (P + 16 - nat n)"
      using Pint nP n by (simp add: pending_bits_def)
    have sp': "stream_pos ?p' = stream_pos p + n"
      by (simp add: stream_pos_def pending_bits_def)
    have np: "nat (stream_pos p + n) = pos + nat n"
      using sp n by (simp add: pos_def nat_add_distrib)
    have bits: "\<forall>i. bit (bitValue ?p') i \<longleftrightarrow>
        int i < pending_bits ?p' \<and> file_bit (buffer ?p') (nat (stream_pos ?p') + i)"
      unfolding pe sp' np by (simp add: b')
    have ok': "bits_ok ?p'"
      unfolding bits_ok_def
      using True bi sp av n bits sp' by (simp add: byteLength_def)
    show ?thesis
      using r ok' sp' True by (auto simp add: v pos_def)
  qed
qed


lemma readBits_seq_general:
  assumes "bits_ok p" and "\<forall>w \<in> set ws. 1 \<le> w \<and> w \<le> 15"
    and "E \<le> byteLength p" and "pointer p \<le> E" and "even (E - pointer p)"
    and "stream_pos p + sum_list ws \<le> 8 * E"
  shows "\<exists>vs p'. readBits_seq ws p = Inr (vs, p') \<and> bits_ok p' \<and>
      stream_pos p' = stream_pos p + sum_list ws \<and> pointer p' \<le> E \<and> even (E - pointer p') \<and>
      buffer p' = buffer p \<and> length vs = length ws \<and>
      (\<forall>k < length ws. \<forall>i. bit (vs ! k) i \<longleftrightarrow>
          int i < ws ! k \<and> file_bit (buffer p) (nat (stream_pos p + sum_list (take k ws)) + i))"
  using assms
proof (induction ws arbitrary: p)
  case Nil
  then show ?case by simp
next
  case (Cons w ws)
  have w: "1 \<le> w" "w \<le> 15" and ws: "\<forall>w \<in> set ws. 1 \<le> w \<and> w \<le> 15"
    using Cons.prems(2) by simp_all
  have nonneg: "0 \<le> sum_list ws"
    using ws by (induction ws) auto
  have sp: "0 \<le> stream_pos p" and bi: "0 \<le> bitIndex p" "bitIndex p \<le> 16"
    using Cons.prems(1) by (simp_all add: bits_ok_def)
  have avail: "pointer p + 2 \<le> E" if "bitIndex p + w > 16"
  proof -
    have "8 * pointer p < 8 * E"
      using that Cons.prems(6) nonneg by (simp add: stream_pos_def pending_bits_def)
    then have "pointer p < E" by simp
    moreover have "E - pointer p \<noteq> 1" using Cons.prems(5) by (metis odd_one)
    ultimately show ?thesis by linarith
  qed
  then have "bitIndex p + w > 16 \<Longrightarrow> pointer p + 2 \<le> byteLength p"
    using Cons.prems(3) by linarith
  from readBits_step [OF Cons.prems(1) w this]
  obtain v p1 where r: "readBits w p = Inr (v, p1)"
    and v: "\<And>i. bit v i \<longleftrightarrow> int i < w \<and> file_bit (buffer p) (nat (stream_pos p) + i)"
    and ok1: "bits_ok p1" and sp1: "stream_pos p1 = stream_pos p + w"
    and pt1: "pointer p1 = (if bitIndex p + w > 16 then pointer p + 2 else pointer p)"
    and eq1: "p1 = p\<lparr>pointer := pointer p1, bitValue := bitValue p1, bitIndex := bitIndex p1\<rparr>"
    by blast
  have buf1: "buffer p1 = buffer p" by (subst eq1) simp
  have len1: "byteLength p1 = byteLength p" by (simp add: byteLength_def buf1)
  have pE: "pointer p1 \<le> E" using pt1 avail Cons.prems(4) by (auto split: if_splits)
  have ev: "even (E - pointer p1)" using pt1 Cons.prems(5) by (auto split: if_splits)
  have lim: "stream_pos p1 + sum_list ws \<le> 8 * E"
    using Cons.prems(6) sp1 by simp
  from Cons.IH [OF ok1 ws _ pE ev lim] Cons.prems(3) len1
  obtain vs p2 where rs: "readBits_seq ws p1 = Inr (vs, p2)"
    and ok2: "bits_ok p2" and sp2: "stream_pos p2 = stream_pos p1 + sum_list ws"
    and p2E: "pointer p2 \<le> E" "even (E - pointer p2)" and buf2: "buffer p2 = buffer p1"
    and lvs: "length vs = length ws"
    and vs: "\<And>k i. k < length ws \<Longrightarrow> bit (vs ! k) i \<longleftrightarrow>
          int i < ws ! k \<and> file_bit (buffer p1) (nat (stream_pos p1 + sum_list (take k ws)) + i)"
    by auto
  have all: "bit ((v # vs) ! k) i \<longleftrightarrow>
      int i < (w # ws) ! k \<and> file_bit (buffer p) (nat (stream_pos p + sum_list (take k (w # ws))) + i)"
    if "k < length (w # ws)" for k i
  proof (cases k)
    case 0
    then show ?thesis by (simp add: v)
  next
    case (Suc k')
    then have "k' < length ws" using that by simp
    from vs [OF this, of i] show ?thesis
      by (simp add: Suc buf1 sp1 add.assoc)
  qed
  show ?case
    apply (rule exI [of _ "v # vs"], rule exI [of _ p2])
    using r rs ok2 sp2 sp1 p2E buf2 buf1 lvs all by (simp add: add.assoc)
qed


lemma bits_ok_reset:
  assumes "bitIndex p = 16" "bitValue p = 0" "0 \<le> pointer p" "pointer p \<le> byteLength p"
  shows "bits_ok p"
  using assms by (simp add: bits_ok_def stream_pos_def pending_bits_def)

text \<open>
  C4, for widths from 1 to 15. In a state where the accumulator holds the waiting bits
  of the stream, \<open>readBits n\<close> succeeds when a refill, if one is needed, has two
  bytes to read. It returns the number whose binary digits are the next \<open>n\<close> bits of
  the stream, lowest first, moves the position in the stream on by exactly \<open>n\<close>, and
  refills at most once (the pointer moves by 2 bytes or not at all). Hence a run of
  reads from the reset state whose widths add up to \<open>16 * m\<close> returns the fields
  of the next \<open>16 * m\<close> bits in order and leaves the pointer exactly \<open>2 * m\<close> bytes on,
  with no bit waiting.
\<close>

theorem C4_readBits:
  "(bits_ok p \<and> 1 \<le> n \<and> n \<le> 15 \<and> (bitIndex p + n > 16 \<longrightarrow> pointer p + 2 \<le> byteLength p) \<longrightarrow>
      (\<exists>v p'. readBits n p = Inr (v, p') \<and>
         (\<forall>i. bit v i \<longleftrightarrow> int i < n \<and> file_bit (buffer p) (nat (stream_pos p) + i)) \<and>
         bits_ok p' \<and> stream_pos p' = stream_pos p + n \<and>
         pointer p' = (if bitIndex p + n > 16 then pointer p + 2 else pointer p))) \<and>
   (bitIndex p = 16 \<and> bitValue p = 0 \<and> 0 \<le> pointer p \<and> (\<forall>w \<in> set ws. 1 \<le> w \<and> w \<le> 15) \<and>
    sum_list ws = 16 * m \<and> pointer p + 2 * m \<le> byteLength p \<longrightarrow>
      (\<exists>vs p'. readBits_seq ws p = Inr (vs, p') \<and> pointer p' = pointer p + 2 * m \<and>
         pending_bits p' = 0 \<and> length vs = length ws \<and>
         (\<forall>k < length ws. \<forall>i. bit (vs ! k) i \<longleftrightarrow>
            int i < ws ! k \<and>
            file_bit (buffer p) (nat (8 * pointer p + sum_list (take k ws)) + i))))"
proof (intro conjI impI)
  assume a: "bits_ok p \<and> 1 \<le> n \<and> n \<le> 15 \<and> (bitIndex p + n > 16 \<longrightarrow> pointer p + 2 \<le> byteLength p)"
  then have "bitIndex p + n > 16 \<Longrightarrow> pointer p + 2 \<le> byteLength p" by simp
  from readBits_step [of p n, OF _ _ _ this] a
  show "\<exists>v p'. readBits n p = Inr (v, p') \<and>
         (\<forall>i. bit v i \<longleftrightarrow> int i < n \<and> file_bit (buffer p) (nat (stream_pos p) + i)) \<and>
         bits_ok p' \<and> stream_pos p' = stream_pos p + n \<and>
         pointer p' = (if bitIndex p + n > 16 then pointer p + 2 else pointer p)"
    by blast
next
  assume a: "bitIndex p = 16 \<and> bitValue p = 0 \<and> 0 \<le> pointer p \<and> (\<forall>w \<in> set ws. 1 \<le> w \<and> w \<le> 15) \<and>
    sum_list ws = 16 * m \<and> pointer p + 2 * m \<le> byteLength p"
  then have ws: "\<forall>w \<in> set ws. 1 \<le> w \<and> w \<le> 15" by simp
  have "0 \<le> sum_list ws" using ws by (induction ws) auto
  then have m: "0 \<le> m" using a by simp
  have ok: "bits_ok p"
    using a m by (intro bits_ok_reset) simp_all
  have sp: "stream_pos p = 8 * pointer p"
    using a by (simp add: stream_pos_def pending_bits_def)
  define E where "E = pointer p + 2 * m"
  have "\<exists>vs p'. readBits_seq ws p = Inr (vs, p') \<and> bits_ok p' \<and>
      stream_pos p' = stream_pos p + sum_list ws \<and> pointer p' \<le> E \<and> even (E - pointer p') \<and>
      buffer p' = buffer p \<and> length vs = length ws \<and>
      (\<forall>k < length ws. \<forall>i. bit (vs ! k) i \<longleftrightarrow>
          int i < ws ! k \<and> file_bit (buffer p) (nat (stream_pos p + sum_list (take k ws)) + i))"
    using a m by (intro readBits_seq_general [OF ok ws]) (simp_all add: E_def sp)
  then obtain vs p' where r: "readBits_seq ws p = Inr (vs, p')" and ok': "bits_ok p'"
    and sp': "stream_pos p' = stream_pos p + sum_list ws" and pE: "pointer p' \<le> E"
    and l: "length vs = length ws"
    and vs: "\<forall>k < length ws. \<forall>i. bit (vs ! k) i \<longleftrightarrow>
          int i < ws ! k \<and> file_bit (buffer p) (nat (stream_pos p + sum_list (take k ws)) + i)"
    by blast
  have "0 \<le> pending_bits p'"
    using ok' by (simp add: bits_ok_def pending_bits_def)
  moreover have "8 * pointer p' - pending_bits p' = 8 * E"
    using sp' sp a by (simp add: stream_pos_def E_def)
  ultimately have "pending_bits p' = 0 \<and> pointer p' = E"
    using pE by linarith
  then show "\<exists>vs p'. readBits_seq ws p = Inr (vs, p') \<and> pointer p' = pointer p + 2 * m \<and>
         pending_bits p' = 0 \<and> length vs = length ws \<and>
         (\<forall>k < length ws. \<forall>i. bit (vs ! k) i \<longleftrightarrow>
            int i < ws ! k \<and>
            file_bit (buffer p) (nat (8 * pointer p + sum_list (take k ws)) + i))"
    using r l vs by (auto simp: E_def sp)
qed

lemma readBits_seq_example:
  "readBits_seq [3, 5, 8] (bit_cursor [0xFD, 0xA5]) = Inr ([5, 31, 165], (bit_cursor [0xFD, 0xA5])\<lparr>pointer := 2\<rparr>)"
  by (simp add: bit_cursor_def readBits_def readUint16_def read_typed_def view_bytes_def
      bytes_value_def js_shl_def js_sar_def bitmask_def BITMASKS_def)

theorem C4_readBits_witness:
  "(\<exists>v p'. readBits 3 (bit_cursor [0xFD, 0xA5]) = Inr (v, p') \<and> stream_pos p' = 3 \<and> pointer p' = 2) \<and>
   (\<exists>vs p'. readBits_seq [3, 5, 8] (bit_cursor [0xFD, 0xA5]) = Inr (vs, p') \<and> pointer p' = 2 \<and>
       pending_bits p' = 0 \<and> length vs = 3) \<and>
   readBits_seq [3, 5, 8] (bit_cursor [0xFD, 0xA5]) = Inr ([5, 31, 165], (bit_cursor [0xFD, 0xA5])\<lparr>pointer := 2\<rparr>)"
proof -
  have ok: "bits_ok (bit_cursor [0xFD, 0xA5])"
    by (rule bits_ok_reset) (simp_all add: bit_cursor_def byteLength_def)
  have a: "\<exists>v p'. readBits 3 (bit_cursor [0xFD, 0xA5]) = Inr (v, p') \<and> stream_pos p' = 3 \<and> pointer p' = 2"
    using C4_readBits [of "bit_cursor [0xFD, 0xA5]" 3 "[]" 0, THEN conjunct1] ok
    by (auto simp add: bit_cursor_def byteLength_def stream_pos_def pending_bits_def)
  have b: "\<exists>vs p'. readBits_seq [3, 5, 8] (bit_cursor [0xFD, 0xA5]) = Inr (vs, p') \<and> pointer p' = 2 \<and>
       pending_bits p' = 0 \<and> length vs = 3"
    using C4_readBits [of "bit_cursor [0xFD, 0xA5]" 1 "[3, 5, 8]" 1, THEN conjunct2]
    by (auto simp add: bit_cursor_def byteLength_def)
  show ?thesis using a b readBits_seq_example by simp
qed

text \<open>
  At width 16 the claim fails: \<^verbatim>\<open>BITMASKS\<close> has no entry 16, the mask is taken as 0
  and the result is 0 whatever the stream holds. Here the stream starts with sixteen
  1 bits.
\<close>

theorem C4_readBits_16_counterexample:
  "bits_ok (bit_cursor [0xFF, 0xFF]) \<and> stream_pos (bit_cursor [0xFF, 0xFF]) = 0 \<and>
   file_bit (buffer (bit_cursor [0xFF, 0xFF])) 0 \<and>
   readBits 16 (bit_cursor [0xFF, 0xFF]) = Inr (0, (bit_cursor [0xFF, 0xFF])\<lparr>pointer := 2\<rparr>)"
proof -
  have ok: "bits_ok (bit_cursor [0xFF, 0xFF])"
    by (rule bits_ok_reset) (simp_all add: bit_cursor_def byteLength_def)
  show ?thesis
    using ok
    by (simp add: bit_cursor_def readBits_def readUint16_def read_typed_def view_bytes_def
      bytes_value_def js_shl_def js_sar_def bitmask_def stream_pos_def pending_bits_def file_bit_def)
qed

section \<open>Results: format B frame decoding\<close>

lemma bindE_simps [simp]: "bindE (Inl e) f = Inl e" "bindE (Inr x) f = f x"
  by (simp_all add: bindE_def)

lemma replicate8: "replicate 8 x = [x, x, x, x, x, x, x, x]"
  by (simp add: numeral_eq_Suc)

lemma kwz_example_tiles:
  assumes "buffer p = kwz_example_file"
  shows "decodeTiles tile_positions
     (0, p\<lparr>pointer := 0, bitIndex := 16, bitValue := 0\<rparr>, replicate (320 * 240) 0) =
   Inr (0, p\<lparr>pointer := 40, bitIndex := 8, bitValue := 0\<rparr>, kwz_example_layerA)"
  by (simp add: assms tile_positions_def sub_offsets_def kwz_example_file_def
      decodeTile_def readBits_def readUint16_def read_typed_def view_bytes_def
      bytes_value_def js_shl_def js_sar_def bitmask_def BITMASKS_def set_pixels_def
      KWZ_LINE_TABLE_COMMON_def KWZ_LINE_TABLE_def common_line_indices_def line_digit_def
      kwz_example_layerA_def replicate8)

lemma decodeLayers_unfold:
  "decodeLayers frameIndex diffingFlag 0 st =
     bindE (decodeLayer frameIndex diffingFlag 0 st) (\<lambda>st1.
       bindE (decodeLayer frameIndex diffingFlag 1 st1) (\<lambda>st2.
         decodeLayer frameIndex diffingFlag 2 st2))"
proof -
  have 3: "decodeLayers frameIndex diffingFlag (Suc (Suc (Suc 0))) s = Inr s" for s
    by (subst decodeLayers.simps) (simp add: eval_nat_numeral)
  have 2: "decodeLayers frameIndex diffingFlag (Suc (Suc 0)) s = decodeLayer frameIndex diffingFlag 2 s" for s
    by (subst decodeLayers.simps) (simp add: eval_nat_numeral 3 split: sum.splits)
  have 1: "decodeLayers frameIndex diffingFlag (Suc 0) s =
      bindE (decodeLayer frameIndex diffingFlag 1 s) (decodeLayer frameIndex diffingFlag 2)" for s
    by (subst decodeLayers.simps) (simp add: eval_nat_numeral 2 bindE_def split: sum.splits)
  show ?thesis
    by (subst decodeLayers.simps) (simp add: eval_nat_numeral 1 bindE_def split: sum.splits)
qed

lemma decodeLayer_skip:
  assumes "frameLayerSizes p ! frameIndex ! layerIndex = 38 \<or> drop_bit layerIndex diffingFlag AND 1 = 0"
  shows "decodeLayer frameIndex diffingFlag layerIndex (framePtr, p) =
     Inr (framePtr + frameLayerSizes p ! frameIndex ! layerIndex, p\<lparr>pointer := int framePtr\<rparr>)"
  using assms by (auto simp: decodeLayer_def seek_def Let_def)

lemma decodeLayers_all_skipped:
  assumes "\<And>l. l < 3 \<Longrightarrow> frameLayerSizes p ! frameIndex ! l = 38 \<or> drop_bit l diffingFlag AND 1 = 0"
  shows "\<exists>framePtr' ptr. decodeLayers frameIndex diffingFlag 0 (framePtr, p) = Inr (framePtr', p\<lparr>pointer := ptr\<rparr>)"
proof -
  have a: "frameLayerSizes p ! frameIndex ! 0 = 38 \<or> drop_bit 0 diffingFlag AND 1 = 0"
    and b: "frameLayerSizes p ! frameIndex ! 1 = 38 \<or> drop_bit 1 diffingFlag AND 1 = 0"
    and c: "frameLayerSizes p ! frameIndex ! 2 = 38 \<or> drop_bit 2 diffingFlag AND 1 = 0"
    using assms [of 0] assms [of 1] assms [of 2] by simp_all
  show ?thesis
    unfolding decodeLayers_unfold
    apply (subst decodeLayer_skip)
    subgoal using a by simp
    apply (simp only: bindE_simps)
    apply (subst decodeLayer_skip)
    subgoal using b by simp
    apply (simp only: bindE_simps)
    apply (subst decodeLayer_skip)
    subgoal using c by simp
    by auto
qed

text \<open>
  C3, as the code has it. When the three layers of frame \<open>i\<close> are 38 bytes long and
  no ancestor has to be decoded first (\<open>i\<close> is 0, or the frame decoded last is
  \<open>i - 1\<close>), \<open>decodeFrame i\<close> returns with the three layer buffers as they were,
  whatever they held.
\<close>

theorem C3_unchanged_layers:
  assumes "frameIndex < frameCount p"
    and "frameLayerSizes p ! frameIndex = [38, 38, 38]"
    and "frameIndex = 0 \<or> prevFrameIndex p = Some (frameIndex - 1)"
  shows "\<exists>p'. decodeFrame frameIndex 0x7 False p = Inr p' \<and> layers p' = layers p \<and>
      prevFrameIndex p' = Some frameIndex"
proof -
  have "l < 3 \<Longrightarrow> frameLayerSizes p ! frameIndex ! l = 38 \<or> drop_bit l (7 :: int) AND 1 = 0" for l
    using assms(2) by (auto simp: less_Suc_eq numeral_3_eq_3)
  from decodeLayers_all_skipped [of p frameIndex 7 "frameDataOffsets p ! frameIndex", OF this]
  obtain framePtr' ptr where
    d: "decodeLayers frameIndex 7 0 (frameDataOffsets p ! frameIndex, p) = Inr (framePtr', p\<lparr>pointer := ptr\<rparr>)"
    by blast
  have nodesc: "\<not> (prevFrameIndex p \<noteq> Some (frameIndex - 1) \<and> frameIndex \<noteq> 0)"
    using assms(3) by auto
  show ?thesis
  proof (cases "frameIndex = 0")
    case True
    then show ?thesis
      using assms(1) d by (subst decodeFrame.simps) simp
  next
    case False
    then have "prevFrameIndex p = Some (frameIndex - 1)" using assms(3) by simp
    then show ?thesis
      using assms(1) d by (subst decodeFrame.simps) simp
  qed
qed


lemma replicate3: "replicate 3 x = [x, x, x]"
  by (simp add: numeral_eq_Suc)

lemma kwz_example_tiles':
  assumes "buffer p = kwz_example_file" "pointer p = 0" "bitIndex p = 16" "bitValue p = 0"
  shows "decodeTiles tile_positions (0, p, replicate 76800 0) =
     Inr (0, p\<lparr>pointer := 40, bitIndex := 8, bitValue := 0\<rparr>, kwz_example_layerA)"
proof -
  have "p\<lparr>pointer := 0, bitIndex := 16, bitValue := 0\<rparr> = p"
    using assms by simp
  then show ?thesis
    using kwz_example_tiles [OF assms(1)] by simp
qed

lemma kwz_example_frame0:
  "decodeFrame 0 0x7 b kwz_example =
     Inr (kwz_example\<lparr>pointer := 78,
            layers := [kwz_example_layerA, replicate 76800 0, replicate 76800 0],
            prevFrameIndex := Some 0, bitIndex := 8, bitValue := 0\<rparr>)"
  by (subst decodeFrame.simps)
     (simp add: kwz_example_def decodeLayers_unfold decodeLayer_def seek_def kwz_example_tiles'
        replicate3)


lemma kwz_example_layerA_take: "take 8 kwz_example_layerA = [1, 1, 1, 1, 1, 1, 1, 1]"
  by (simp add: kwz_example_layerA_def replicate8 set_pixels_def)

lemma kwz_example_frame1:
  "decodeFrame 1 0x7 False kwz_example =
     Inr (kwz_example\<lparr>pointer := 192,
            layers := [kwz_example_layerA, replicate 76800 0, replicate 76800 0],
            prevFrameIndex := Some 1, bitIndex := 8, bitValue := 0\<rparr>)"
  apply (subst decodeFrame.simps)
  apply (simp add: kwz_example_frame0)
  apply (simp add: kwz_example_def decodeLayers_unfold decodeLayer_def seek_def)
  done

text \<open>
  Without that condition the claim fails: on the fresh example parser, frame 1 has
  three 38-byte layers, \<open>decodeFrame 1\<close> first decodes frame 0, and the first line of
  layer A goes from zeros to ones.
\<close>

theorem C3_ancestor_counterexample:
  "1 < frameCount kwz_example \<and> frameLayerSizes kwz_example ! 1 = [38, 38, 38] \<and>
   take 8 (layers kwz_example ! 0) = [0, 0, 0, 0, 0, 0, 0, 0] \<and>
   map_sum id (\<lambda>p. take 8 (layers p ! 0)) (decodeFrame 1 0x7 False kwz_example)
     = Inr [1, 1, 1, 1, 1, 1, 1, 1]"
proof -
  have "map_sum id (\<lambda>p. take 8 (layers p ! 0)) (decodeFrame 1 0x7 False kwz_example)
     = Inr [1, 1, 1, 1, 1, 1, 1, 1]"
    unfolding kwz_example_frame1 by (simp add: kwz_example_layerA_take)
  then show ?thesis
    by (simp add: kwz_example_def replicate3 replicate8)
qed

theorem C3_unchanged_layers_witness:
  "\<exists>p'. decodeFrame 1 0x7 False
       (kwz_example\<lparr>layers := [kwz_example_layerA, replicate 76800 0, replicate 76800 0],
                     prevFrameIndex := Some 0\<rparr>) = Inr p' \<and>
        layers p' = [kwz_example_layerA, replicate 76800 0, replicate 76800 0] \<and>
        prevFrameIndex p' = Some 1"
  using C3_unchanged_layers [of 1
      "kwz_example\<lparr>layers := [kwz_example_layerA, replicate 76800 0, replicate 76800 0],
                     prevFrameIndex := Some 0\<rparr>"]
  by (simp add: kwz_example_def)

lemma kwz_example_frame2_alone:
  "decodeFrame 2 0x7 False kwz_example =
     Inr (kwz_example\<lparr>pointer := 306, prevFrameIndex := Some 2\<rparr>)"
  apply (subst decodeFrame.simps)
  apply (subst decodeFrame.simps)
  apply (simp add: kwz_example_def kwz_example_file_def decodeLayers_unfold decodeLayer_def seek_def
      getFrameDiffingFlag_def readUint32_def read_typed_def view_bytes_def bytes_value_def)
  done

end
